theory Spec2Isabelle
  imports
    Complex_Main
    "HOL-Library.AList"
    "HOL-Library.Finite_Map"
    "HOL-Library.Char_ord"
    "HOL-Library.List_Lexorder"
begin

section \<open>The main window of the Bybit terminal (main\_window.py)\<close>

text \<open>
  A shallow embedding of the class \<^verbatim>\<open>MainWindow\<close>: the batched update loop
  (\<^verbatim>\<open>_process_updates\<close>, \<^verbatim>\<open>_update_ui\<close> and the four handlers), the table
  refreshes, the poll cycle \<^verbatim>\<open>update_ui\<close>, \<^verbatim>\<open>update_balance\<close>,
  \<^verbatim>\<open>close_position\<close>, \<^verbatim>\<open>on_open\<close>, \<^verbatim>\<open>edit_position\<close> and the symbol
  filter. The window is a record of the attributes these methods read and write; every
  method takes the window and returns the new one, together with the exception it
  raises to its caller, if any. The collaborators that are not part of this file
  (position manager, order manager, session manager, data manager, chart widget, error
  handler, web socket, dialog) are the fields of an environment record: each is a
  function on an opaque world state, so that two calls of the same collaborator may
  answer differently.
\<close>

subsection \<open>Python values\<close>

text \<open>
  The values that travel through the update queue. Numbers are exact rationals: Python's
  \<^verbatim>\<open>0 == 0.0\<close> holds here, a float's rounding and NaN are outside the model. Equality
  of the datatype is Python's \<^verbatim>\<open>==\<close> on these values (a dict compares by its
  key-value pairs, whatever their order).
\<close>

datatype pyval =
    PyNone
  | PyNum rat
  | PyStr string
  | PyList "pyval list"
  | PyDict "(string, pyval) fmap"

datatype exn = TypeError | ValueError | AttributeError | ValidationError | Failure string

text \<open>Truth value testing, as in \<^verbatim>\<open>if balance:\<close>.\<close>

fun truthy :: "pyval \<Rightarrow> bool" where
  "truthy PyNone = False"
| "truthy (PyNum r) = (r \<noteq> 0)"
| "truthy (PyStr s) = (s \<noteq> [])"
| "truthy (PyList xs) = (xs \<noteq> [])"
| "truthy (PyDict d) = (d \<noteq> fmempty)"

text \<open>
  The format specifications \<^verbatim>\<open>:.4f\<close> and \<^verbatim>\<open>:.2f\<close> accept a number only: a string
  raises ValueError, None, a list and a dict raise TypeError. The result is the number
  that is rendered; the digits themselves are not modelled.
\<close>

fun py_format_f :: "pyval \<Rightarrow> exn + rat" where
  "py_format_f (PyNum r) = Inr r"
| "py_format_f (PyStr s) = Inl ValueError"
| "py_format_f PyNone = Inl TypeError"
| "py_format_f (PyList xs) = Inl TypeError"
| "py_format_f (PyDict d) = Inl TypeError"

text \<open>\<^verbatim>\<open>d.get(k)\<close>: None for a missing key.\<close>

definition py_get :: "(string \<rightharpoonup> pyval) \<Rightarrow> string \<Rightarrow> pyval" where
  "py_get d k = (case d k of None \<Rightarrow> PyNone | Some v \<Rightarrow> v)"

subsection \<open>Positions, orders, responses\<close>

text \<open>
  A position and an order are the dicts the managers return, read by fixed keys; they
  are records here. The field names carry a prefix because \<open>size\<close> and \<open>symbol\<close> are
  taken. Numeric fields are the numbers \<^verbatim>\<open>float(...)\<close> reads. A dict that lacks
  one of the keys, or holds a value that \<^verbatim>\<open>float\<close> cannot read, is outside these
  types. The two protective levels are read with \<^verbatim>\<open>get\<close> and may be missing.
\<close>

record position =
  pos_symbol :: string
  pos_side :: string
  pos_size :: rat
  pos_avgPrice :: rat
  pos_markPrice :: rat
  pos_unrealisedPnl :: rat
  pos_ROE :: rat
  pos_takeProfit :: "pyval option"
  pos_stopLoss :: "pyval option"

record order =
  ord_symbol :: string
  ord_side :: string
  ord_orderType :: string
  ord_price :: rat
  ord_qty :: rat
  ord_profit :: rat
  ord_status :: string

text \<open>
  A response of the trading API, as far as the window reads it: \<^verbatim>\<open>retCode\<close> and
  \<^verbatim>\<open>retMsg\<close>, either of which may be missing. A response that is None or an empty
  dict (falsy) is \<open>None\<close> of \<open>response option\<close>.
\<close>

record response =
  retCode :: "int option"
  retMsg :: "string option"

text \<open>
  The keyword arguments of \<^verbatim>\<open>set_trading_stop\<close>: a dict in insertion order.
  \<open>ParamStrOf v\<close> is \<^verbatim>\<open>str(v)\<close>.
\<close>

datatype param = ParamText string | ParamInt int | ParamStrOf pyval

type_synonym params = "(string \<times> param) list"

subsection \<open>What the window shows\<close>

text \<open>
  The texts are Russian in the source; a label, a cell, a log line and a message box
  are kept as the template that produced them and the value that was formatted in.
\<close>

datatype label =
    LabelInitial
  | PriceFixed4 rat
  | BalanceRaw pyval
  | BalanceFixed2 rat

datatype cell =
    CellText string
  | CellStr rat
  | CellFixed2 rat
  | CellPercent2 rat

record position_row =
  row_cells :: "cell list"
  row_user_data :: "position option"

type_synonym order_row = "cell list"

datatype error_text = UnknownError | ApiMessage string | ExceptionText exn

datatype log_entry =
    ErrBalance exn
  | ErrPositionsTable exn
  | ErrOrdersTable exn
  | ErrChartPositions exn
  | ErrUpdateUI exn
  | ErrClosePosition error_text
  | ErrClosePositionRaised exn
  | ErrSetTpSl exn
  | ErrLoadSymbols exn
  | InfoPositionClosed string
  | InfoWsOpen
  | InfoSymbolsLoaded

datatype message =
    MsgSuccessClosed string
  | MsgCloseFailed error_text

subsection \<open>Collaborator calls and handler calls, as they are observed\<close>

text \<open>
  Two lists of the window record are not attributes of the source: \<open>requests\<close> lists
  the fetches, the orders and trading stops submitted to the trading API and the frames
  sent on the web socket, \<open>invoked\<close> the handler calls made by the batched update
  loop, each in the order of the calls.
\<close>

datatype request =
    ReqUpdateAll
  | ReqGetPositions
  | ReqGetOrders
  | ReqGetWalletBalance
  | ReqPlaceOrder string rat
  | ReqSetTradingStop params
  | ReqWsSend string

datatype handler_call =
    HandlePrice pyval
  | HandlePositions pyval
  | HandleOrders
  | HandleBalance pyval

fun call_topic :: "handler_call \<Rightarrow> string" where
  "call_topic (HandlePrice v) = ''price''"
| "call_topic (HandlePositions v) = ''positions''"
| "call_topic HandleOrders = ''orders''"
| "call_topic (HandleBalance v) = ''balance''"

fun call_arg :: "handler_call \<Rightarrow> pyval option" where
  "call_arg (HandlePrice v) = Some v"
| "call_arg (HandlePositions v) = Some v"
| "call_arg HandleOrders = None"
| "call_arg (HandleBalance v) = Some v"

subsection \<open>The window and its collaborators\<close>

text \<open>
  The combo box is its list of items, its current text (for an editable combo box the
  text of its line edit) and whether its popup is shown. \<open>all_symbols\<close> is an attribute
  that only the method \<^verbatim>\<open>load_symbols\<close> sets, which nothing in the file calls:
  \<open>None\<close> while it does not exist. \<open>current_symbol\<close> is the attribute that
  \<^verbatim>\<open>on_symbol_selected\<close> sets.
\<close>

record 'w main_window =
  update_queue :: "(string \<times> pyval) list list"
  last_data :: "string \<rightharpoonup> pyval"
  widgets :: "string list"
  price_label :: label
  balance_label :: label
  positions_table :: "position_row list"
  orders_table :: "order_row list"
  symbol_combo_items :: "string list"
  symbol_combo_text :: string
  symbol_combo_popup :: bool
  available_symbols :: "string list"
  all_symbols :: "string list option"
  current_symbol :: "string option"
  positions_update_needed :: bool
  orders_update_needed :: bool
  logged :: "log_entry list"
  messages :: "message list"
  requests :: "request list"
  invoked :: "handler_call list"
  world :: 'w

text \<open>
  The collaborators. A call either returns (\<open>Inr\<close>, or \<open>None\<close> where nothing is
  returned) or raises (\<open>Inl\<close>, \<open>Some\<close>), and leaves a new world. The dialog answers
  \<open>None\<close> when \<^verbatim>\<open>exec_()\<close> is false and \<open>Some (tp, sl)\<close>, the pair of
  \<^verbatim>\<open>get_values()\<close>, when it is accepted. \<open>api_place_order\<close> is the order
  submission of the trading API, which the position manager calls.
\<close>

record 'w env =
  dm_update_all :: "'w \<Rightarrow> exn option \<times> 'w"
  pm_get_positions :: "'w \<Rightarrow> (exn + position list) \<times> 'w"
  api_place_order :: "string \<Rightarrow> rat \<Rightarrow> 'w \<Rightarrow> (exn + response option) \<times> 'w"
  om_get_orders :: "'w \<Rightarrow> (exn + order list) \<times> 'w"
  sm_get_wallet_balance :: "'w \<Rightarrow> (exn + pyval) \<times> 'w"
  sm_set_trading_stop :: "params \<Rightarrow> 'w \<Rightarrow> (exn + response option) \<times> 'w"
  sm_get_instruments_info :: "'w \<Rightarrow> (exn + string list option) \<times> 'w"
  eh_handle_bybit_error :: "response option \<Rightarrow> 'w \<Rightarrow> exn option \<times> 'w"
  chart_update_price :: "pyval \<Rightarrow> 'w \<Rightarrow> exn option \<times> 'w"
  chart_update_positions_and_orders ::
    "position list \<Rightarrow> order list \<Rightarrow> 'w \<Rightarrow> exn option \<times> 'w"
  ws_send :: "string \<Rightarrow> 'w \<Rightarrow> exn option \<times> 'w"
  sl_tp_dialog :: "position \<Rightarrow> 'w \<Rightarrow> (pyval \<times> pyval) option \<times> 'w"
  config_symbol :: "'w \<Rightarrow> string"
  config_save_symbol :: "string \<Rightarrow> 'w \<Rightarrow> exn option \<times> 'w"
  dm_change_symbol :: "string \<Rightarrow> 'w \<Rightarrow> exn option \<times> 'w"
  pm_change_symbol :: "string \<Rightarrow> 'w \<Rightarrow> exn option \<times> 'w"
  om_change_symbol :: "string \<Rightarrow> 'w \<Rightarrow> exn option \<times> 'w"

definition log_line :: "log_entry \<Rightarrow> 'w main_window \<Rightarrow> 'w main_window" where
  "log_line l s = s\<lparr>logged := logged s @ [l]\<rparr>"

definition show_message :: "message \<Rightarrow> 'w main_window \<Rightarrow> 'w main_window" where
  "show_message m s = s\<lparr>messages := messages s @ [m]\<rparr>"

text \<open>The calls to the remote collaborators: each is recorded and threads the world.\<close>

definition call_update_all :: "'w env \<Rightarrow> 'w main_window \<Rightarrow> exn option \<times> 'w main_window" where
  "call_update_all E s =
     (case dm_update_all E (world s) of
        (r, w) \<Rightarrow> (r, s\<lparr>world := w, requests := requests s @ [ReqUpdateAll]\<rparr>))"

definition call_get_positions ::
  "'w env \<Rightarrow> 'w main_window \<Rightarrow> (exn + position list) \<times> 'w main_window" where
  "call_get_positions E s =
     (case pm_get_positions E (world s) of
        (r, w) \<Rightarrow> (r, s\<lparr>world := w, requests := requests s @ [ReqGetPositions]\<rparr>))"

definition call_get_orders ::
  "'w env \<Rightarrow> 'w main_window \<Rightarrow> (exn + order list) \<times> 'w main_window" where
  "call_get_orders E s =
     (case om_get_orders E (world s) of
        (r, w) \<Rightarrow> (r, s\<lparr>world := w, requests := requests s @ [ReqGetOrders]\<rparr>))"

definition call_get_wallet_balance ::
  "'w env \<Rightarrow> 'w main_window \<Rightarrow> (exn + pyval) \<times> 'w main_window" where
  "call_get_wallet_balance E s =
     (case sm_get_wallet_balance E (world s) of
        (r, w) \<Rightarrow> (r, s\<lparr>world := w, requests := requests s @ [ReqGetWalletBalance]\<rparr>))"

definition call_place_order ::
  "'w env \<Rightarrow> string \<Rightarrow> rat \<Rightarrow> 'w main_window \<Rightarrow> (exn + response option) \<times> 'w main_window" where
  "call_place_order E symb sz s =
     (case api_place_order E symb sz (world s) of
        (r, w) \<Rightarrow> (r, s\<lparr>world := w, requests := requests s @ [ReqPlaceOrder symb sz]\<rparr>))"

definition call_set_trading_stop ::
  "'w env \<Rightarrow> params \<Rightarrow> 'w main_window \<Rightarrow> (exn + response option) \<times> 'w main_window" where
  "call_set_trading_stop E ps s =
     (case sm_set_trading_stop E ps (world s) of
        (r, w) \<Rightarrow> (r, s\<lparr>world := w, requests := requests s @ [ReqSetTradingStop ps]\<rparr>))"


subsection \<open>The tables\<close>

text \<open>
  \<^verbatim>\<open>update_positions_table(self, positions)\<close> overwrites its argument with a fresh
  \<^verbatim>\<open>get_positions()\<close> in its first statement, clears the table and appends one row
  per position whose size is not 0. The whole body is in a try block: an exception is
  logged and the method returns. The fetch comes before \<^verbatim>\<open>setRowCount(0)\<close>, so a
  failed fetch leaves the rows as they were.
\<close>

definition position_row_of :: "position \<Rightarrow> position_row" where
  "position_row_of p =
     \<lparr>row_cells =
        [CellText (pos_symbol p), CellText (pos_side p), CellStr (pos_size p),
         CellStr (pos_avgPrice p), CellStr (pos_markPrice p),
         CellFixed2 (pos_unrealisedPnl p), CellPercent2 (pos_ROE p)],
      row_user_data = Some p\<rparr>"

fun positions_loop :: "position list \<Rightarrow> position_row list \<Rightarrow> position_row list" where
  "positions_loop [] table = table"
| "positions_loop (p # ps) table =
     (if pos_size p = 0 then positions_loop ps table
      else positions_loop ps (table @ [position_row_of p]))"

definition update_positions_table :: "'w env \<Rightarrow> 'a \<Rightarrow> 'w main_window \<Rightarrow> 'w main_window" where
  "update_positions_table E positions s =
     (case call_get_positions E s of
        (Inl e, s1) \<Rightarrow> log_line (ErrPositionsTable e) s1
      | (Inr fetched, s1) \<Rightarrow> s1\<lparr>positions_table := positions_loop fetched []\<rparr>)"

definition order_row_of :: "order \<Rightarrow> order_row" where
  "order_row_of od =
     [CellText (ord_symbol od), CellText (ord_side od), CellText (ord_orderType od),
      CellStr (ord_price od), CellStr (ord_qty od), CellStr (ord_profit od),
      CellText (ord_status od)]"

fun orders_loop :: "order list \<Rightarrow> order_row list \<Rightarrow> order_row list" where
  "orders_loop [] table = table"
| "orders_loop (od # ods) table = orders_loop ods (table @ [order_row_of od])"

definition update_orders_table :: "'w env \<Rightarrow> 'w main_window \<Rightarrow> 'w main_window" where
  "update_orders_table E s =
     (case call_get_orders E s of
        (Inl e, s1) \<Rightarrow> log_line (ErrOrdersTable e) s1
      | (Inr fetched, s1) \<Rightarrow> s1\<lparr>orders_table := orders_loop fetched []\<rparr>)"

text \<open>
  \<^verbatim>\<open>update_chart_positions\<close>: both fetches and the chart call are in one try block.
\<close>

definition update_chart_positions :: "'w env \<Rightarrow> 'w main_window \<Rightarrow> 'w main_window" where
  "update_chart_positions E s =
     (case call_get_positions E s of
        (Inl e, s1) \<Rightarrow> log_line (ErrChartPositions e) s1
      | (Inr ps, s1) \<Rightarrow>
          (case call_get_orders E s1 of
             (Inl e, s2) \<Rightarrow> log_line (ErrChartPositions e) s2
           | (Inr ords, s2) \<Rightarrow>
               (case chart_update_positions_and_orders E ps ords (world s2) of
                  (Some e, w) \<Rightarrow> log_line (ErrChartPositions e) (s2\<lparr>world := w\<rparr>)
                | (None, w) \<Rightarrow> s2\<lparr>world := w\<rparr>)))"

subsection \<open>The batched update loop\<close>

text \<open>
  The four handlers. \<^verbatim>\<open>_handle_price_update\<close> formats the price with
  \<^verbatim>\<open>:.4f\<close> and passes it to the chart, outside any try block: what either raises
  leaves the handler. \<^verbatim>\<open>_handle_positions_update\<close> and
  \<^verbatim>\<open>_handle_orders_update\<close> call methods that catch and log inside.
  \<^verbatim>\<open>_handle_balance_update\<close> formats its argument with the empty format
  specification, which accepts every value.
\<close>

definition handle_price_update ::
  "'w env \<Rightarrow> pyval \<Rightarrow> 'w main_window \<Rightarrow> exn option \<times> 'w main_window" where
  "handle_price_update E price s =
     (case py_format_f price of
        Inl e \<Rightarrow> (Some e, s)
      | Inr r \<Rightarrow>
          (case chart_update_price E price (world s) of
             (raised, w) \<Rightarrow> (raised, s\<lparr>price_label := PriceFixed4 r, world := w\<rparr>)))"

definition handle_positions_update ::
  "'w env \<Rightarrow> pyval \<Rightarrow> 'w main_window \<Rightarrow> exn option \<times> 'w main_window" where
  "handle_positions_update E positions s =
     (None, update_chart_positions E (update_positions_table E positions s))"

definition handle_orders_update :: "'w env \<Rightarrow> 'w main_window \<Rightarrow> exn option \<times> 'w main_window" where
  "handle_orders_update E s = (None, update_chart_positions E (update_orders_table E s))"

definition handle_balance_update :: "pyval \<Rightarrow> 'w main_window \<Rightarrow> exn option \<times> 'w main_window" where
  "handle_balance_update balance s = (None, s\<lparr>balance_label := BalanceRaw balance\<rparr>)"

definition note_call :: "handler_call \<Rightarrow> 'w main_window \<Rightarrow> 'w main_window" where
  "note_call c s = s\<lparr>invoked := invoked s @ [c]\<rparr>"

text \<open>
  The \<^verbatim>\<open>if\<close>/\<^verbatim>\<open>elif\<close> chain of \<^verbatim>\<open>_update_ui\<close> on the widget id. The orders
  handler is called without the value. A registered widget id with no branch (the
  chart) calls nothing.
\<close>

definition dispatch ::
  "'w env \<Rightarrow> string \<Rightarrow> pyval \<Rightarrow> 'w main_window \<Rightarrow> exn option \<times> 'w main_window" where
  "dispatch E widget_id d s =
     (if widget_id = ''price'' then handle_price_update E d (note_call (HandlePrice d) s)
      else if widget_id = ''positions'' then
        handle_positions_update E d (note_call (HandlePositions d) s)
      else if widget_id = ''orders'' then handle_orders_update E (note_call HandleOrders s)
      else if widget_id = ''balance'' then
        handle_balance_update d (note_call (HandleBalance d) s)
      else (None, s))"

text \<open>
  \<^verbatim>\<open>_update_ui(updates)\<close>: the loop over \<^verbatim>\<open>updates.items()\<close>. The method has no
  try block, so an exception of a handler ends the loop and reaches the caller; the
  assignment to \<^verbatim>\<open>_last_data\<close> stands after the handler call.
\<close>

fun update_ui_private ::
  "'w env \<Rightarrow> (string \<times> pyval) list \<Rightarrow> 'w main_window \<Rightarrow> exn option \<times> 'w main_window" where
  "update_ui_private E [] s = (None, s)"
| "update_ui_private E ((widget_id, d) # updates) s =
     (if py_get (last_data s) widget_id \<noteq> d then
        (case (if widget_id \<in> set (widgets s) then dispatch E widget_id d s else (None, s)) of
           (Some e, s1) \<Rightarrow> (Some e, s1)
         | (None, s1) \<Rightarrow>
             update_ui_private E updates (s1\<lparr>last_data := (last_data s1)(widget_id \<mapsto> d)\<rparr>))
      else update_ui_private E updates s)"

text \<open>
  \<^verbatim>\<open>_process_updates\<close>: the queue is drained into one dict, each queued dict merged
  with \<^verbatim>\<open>dict.update\<close>, which keeps the place of a key that is there and appends a
  new one.
\<close>

definition dict_update :: "(string \<times> pyval) list \<Rightarrow> (string \<times> pyval) list \<Rightarrow> (string \<times> pyval) list" where
  "dict_update updates d = fold (\<lambda>(k, v). AList.update k v) d updates"

definition drain :: "(string \<times> pyval) list list \<Rightarrow> (string \<times> pyval) list" where
  "drain queue = fold (\<lambda>d updates. dict_update updates d) queue []"

definition process_updates :: "'w env \<Rightarrow> 'w main_window \<Rightarrow> exn option \<times> 'w main_window" where
  "process_updates E s =
     (if update_queue s = [] then (None, s)
      else update_ui_private E (drain (update_queue s)) (s\<lparr>update_queue := []\<rparr>))"

subsection \<open>Balance and the poll cycle\<close>

definition set_balance_label :: "pyval \<Rightarrow> 'w main_window \<Rightarrow> exn option \<times> 'w main_window" where
  "set_balance_label balance s =
     (if truthy balance then
        (case py_format_f balance of
           Inl e \<Rightarrow> (Some e, s)
         | Inr r \<Rightarrow> (None, s\<lparr>balance_label := BalanceFixed2 r\<rparr>))
      else (None, s))"

definition update_balance :: "'w env \<Rightarrow> 'w main_window \<Rightarrow> 'w main_window" where
  "update_balance E s =
     (case call_get_wallet_balance E s of
        (Inl e, s1) \<Rightarrow> log_line (ErrBalance e) s1
      | (Inr balance, s1) \<Rightarrow>
          (case set_balance_label balance s1 of
             (Some e, s2) \<Rightarrow> log_line (ErrBalance e) s2
           | (None, s2) \<Rightarrow> s2))"

text \<open>
  \<^verbatim>\<open>update_ui\<close>: one try block around the whole cycle. The argument of
  \<^verbatim>\<open>update_positions_table\<close> is a \<^verbatim>\<open>get_positions()\<close> of its own, evaluated in
  the cycle's try block and not in the one of \<^verbatim>\<open>update_positions_table\<close>.
\<close>

definition update_ui :: "'w env \<Rightarrow> 'w main_window \<Rightarrow> 'w main_window" where
  "update_ui E s =
     (case call_update_all E s of
        (Some e, s1) \<Rightarrow> log_line (ErrUpdateUI e) s1
      | (None, s1) \<Rightarrow>
          (case call_get_positions E s1 of
             (Inl e, s2) \<Rightarrow> log_line (ErrUpdateUI e) s2
           | (Inr positions, s2) \<Rightarrow>
               (let s3 = update_positions_table E positions s2;
                    s4 = update_orders_table E s3;
                    s5 = update_chart_positions E s4
                in (case call_get_wallet_balance E s5 of
                      (Inl e, s6) \<Rightarrow> log_line (ErrUpdateUI e) s6
                    | (Inr balance, s6) \<Rightarrow>
                        (case set_balance_label balance s6 of
                           (Some e, s7) \<Rightarrow> log_line (ErrUpdateUI e) s7
                         | (None, s7) \<Rightarrow> s7)))))"

subsection \<open>Closing a position\<close>

text \<open>
  Modelled from the spec: \<^verbatim>\<open>position_manager.close_position\<close>, the method of the
  position manager that \<^verbatim>\<open>MainWindow.close_position\<close> calls, is not among the
  sources. The spec has it submit an opposing market order of the size, with a guard for
  size 0 that refuses with a validation error before any remote call. The side and the
  type of the order are not part of the model.
\<close>

definition pm_close_position ::
  "'w env \<Rightarrow> string \<Rightarrow> rat \<Rightarrow> 'w main_window \<Rightarrow> (exn + response option) \<times> 'w main_window" where
  "pm_close_position E symb sz s =
     (if sz = 0 then (Inl ValidationError, s) else call_place_order E symb sz s)"

text \<open>
  \<^verbatim>\<open>close_position(symbol, size)\<close> of the window: the first statement of the try
  block is the call of the position manager; the window tests nothing before it.
\<close>

definition close_position :: "'w env \<Rightarrow> string \<Rightarrow> rat \<Rightarrow> 'w main_window \<Rightarrow> 'w main_window" where
  "close_position E symb sz s =
     (case pm_close_position E symb sz s of
        (Inl e, s1) \<Rightarrow>
          show_message (MsgCloseFailed (ExceptionText e)) (log_line (ErrClosePositionRaised e) s1)
      | (Inr resp, s1) \<Rightarrow>
          (if (case resp of None \<Rightarrow> False | Some r \<Rightarrow> retCode r = Some 0) then
             show_message (MsgSuccessClosed symb)
               ((log_line (InfoPositionClosed symb) s1)
                  \<lparr>positions_update_needed := True, orders_update_needed := True\<rparr>)
           else
             (let error_msg =
                    (case resp of
                       None \<Rightarrow> UnknownError
                     | Some r \<Rightarrow> (case retMsg r of None \<Rightarrow> UnknownError | Some m \<Rightarrow> ApiMessage m))
              in show_message (MsgCloseFailed error_msg)
                   (log_line (ErrClosePosition error_msg) s1))))"

subsection \<open>The subscribe message\<close>

text \<open>
  \<^verbatim>\<open>json.dumps\<close> with its default arguments, on the JSON values the window
  serializes: strings, arrays and objects. Items are separated by a comma and a space,
  a key from its value by a colon and a space. In a string, the quotation mark, the
  backslash and every character outside the printable ASCII range are escaped. A
  \<open>char\<close> stands for the code point of its number.
\<close>

datatype json = JString string | JArray "json list" | JObject "(string \<times> json) list"

definition hex_digit :: "nat \<Rightarrow> char" where
  "hex_digit n = ''0123456789abcdef'' ! (n mod 16)"

definition escape_char :: "char \<Rightarrow> string" where
  "escape_char c =
     (if c = CHR 0x22 then [CHR 0x5C, CHR 0x22]
      else if c = CHR 0x5C then [CHR 0x5C, CHR 0x5C]
      else if c = CHR 0x0A then [CHR 0x5C, CHR ''n'']
      else if c = CHR 0x0D then [CHR 0x5C, CHR ''r'']
      else if c = CHR 0x09 then [CHR 0x5C, CHR ''t'']
      else if c = CHR 0x08 then [CHR 0x5C, CHR ''b'']
      else if c = CHR 0x0C then [CHR 0x5C, CHR ''f'']
      else if (of_char c :: nat) < 32 \<or> 126 < (of_char c :: nat) then
        [CHR 0x5C, CHR ''u'', CHR ''0'', CHR ''0'',
         hex_digit (of_char c div 16), hex_digit (of_char c)]
      else [c])"

definition encode_string :: "string \<Rightarrow> string" where
  "encode_string s = [CHR 0x22] @ concat (map escape_char s) @ [CHR 0x22]"

fun json_dumps :: "json \<Rightarrow> string"
  and dumps_items :: "json list \<Rightarrow> string"
  and dumps_members :: "(string \<times> json) list \<Rightarrow> string"
where
  "json_dumps (JString s) = encode_string s"
| "json_dumps (JArray xs) = ''['' @ dumps_items xs @ '']''"
| "json_dumps (JObject ms) = ''{'' @ dumps_members ms @ ''}''"
| "dumps_items [] = []"
| "dumps_items [x] = json_dumps x"
| "dumps_items (x # y # ys) = json_dumps x @ '', '' @ dumps_items (y # ys)"
| "dumps_members [] = []"
| "dumps_members [(k, v)] = encode_string k @ '': '' @ json_dumps v"
| "dumps_members ((k, v) # m # ms) =
     encode_string k @ '': '' @ json_dumps v @ '', '' @ dumps_members (m # ms)"

definition subscribe_message :: "string \<Rightarrow> json" where
  "subscribe_message current_text =
     JObject [(''op'', JString ''subscribe''),
              (''args'', JArray [JString (''tickers.'' @ current_text)])]"


subsection \<open>Take profit and stop loss\<close>

text \<open>
  The class defines \<^verbatim>\<open>edit_position\<close> twice; the second definition (on a table
  index) replaces the first (on a position). Both run the same dialog and the same try
  block. The keyword arguments start with three fixed keys; \<^verbatim>\<open>if tp:\<close> and
  \<^verbatim>\<open>if sl:\<close> add the other two. After the request the try block calls
  \<^verbatim>\<open>self.update_positions()\<close>, a method the class does not have: the AttributeError
  is logged by the except clause.
\<close>

definition trading_stop_params :: "string \<Rightarrow> pyval \<Rightarrow> pyval \<Rightarrow> params" where
  "trading_stop_params symb tp sl =
     (let params0 = [(''category'', ParamText ''linear''), (''symbol'', ParamText symb),
                     (''positionIdx'', ParamInt 0)];
          params1 = (if truthy tp then AList.update ''takeProfit'' (ParamStrOf tp) params0
                     else params0);
          params2 = (if truthy sl then AList.update ''stopLoss'' (ParamStrOf sl) params1
                     else params1)
      in params2)"

definition set_tp_sl :: "'w env \<Rightarrow> position \<Rightarrow> pyval \<Rightarrow> pyval \<Rightarrow> 'w main_window \<Rightarrow> 'w main_window" where
  "set_tp_sl E position tp sl s =
     (case call_set_trading_stop E (trading_stop_params (pos_symbol position) tp sl) s of
        (Inl e, s1) \<Rightarrow> log_line (ErrSetTpSl e) s1
      | (Inr resp, s1) \<Rightarrow>
          (case eh_handle_bybit_error E resp (world s1) of
             (Some e, w) \<Rightarrow> log_line (ErrSetTpSl e) (s1\<lparr>world := w\<rparr>)
           | (None, w) \<Rightarrow> log_line (ErrSetTpSl AttributeError) (s1\<lparr>world := w\<rparr>)))"

definition edit_position_dialog :: "'w env \<Rightarrow> position \<Rightarrow> 'w main_window \<Rightarrow> 'w main_window" where
  "edit_position_dialog E position s =
     (case sl_tp_dialog E position (world s) of
        (None, w) \<Rightarrow> s\<lparr>world := w\<rparr>
      | (Some (tp, sl), w) \<Rightarrow> set_tp_sl E position tp sl (s\<lparr>world := w\<rparr>))"

definition edit_position_shadowed :: "'w env \<Rightarrow> position \<Rightarrow> 'w main_window \<Rightarrow> 'w main_window" where
  "edit_position_shadowed E position s = edit_position_dialog E position s"

text \<open>\<^verbatim>\<open>positions_table.item(row, 0)\<close>: None outside the table.\<close>

definition table_item :: "position_row list \<Rightarrow> int \<Rightarrow> position_row option" where
  "table_item table row =
     (if 0 \<le> row \<and> row < int (length table) then Some (table ! nat row) else None)"

definition edit_position :: "'w env \<Rightarrow> int \<Rightarrow> 'w main_window \<Rightarrow> exn option \<times> 'w main_window" where
  "edit_position E row s =
     (case table_item (positions_table s) row of
        None \<Rightarrow> (Some AttributeError, s)
      | Some item \<Rightarrow>
          (case row_user_data item of
             None \<Rightarrow> (None, s)
           | Some position \<Rightarrow> (None, edit_position_dialog E position s)))"

subsection \<open>The symbol catalog and its filter\<close>

text \<open>
  \<^verbatim>\<open>str.upper()\<close>. A \<open>char\<close> stands for the code point of its number, 0 to 255;
  the upper case of some of them lies beyond 255 or has two letters, so the result is a
  list of code points. Python maps each character on its own: a to z and the accented
  letters 224 to 254 (but not the division sign 247) move down by 32, the micro sign 181
  becomes the Greek capital 924, the sharp s 223 becomes SS, and 255 becomes 376.
\<close>

definition upper_char :: "char \<Rightarrow> nat list" where
  "upper_char c =
     (let n = (of_char c :: nat)
      in if 97 \<le> n \<and> n \<le> 122 then [n - 32]
         else if n = 181 then [924]
         else if n = 223 then [83, 83]
         else if 224 \<le> n \<and> n \<le> 254 \<and> n \<noteq> 247 then [n - 32]
         else if n = 255 then [376]
         else [n])"

definition py_upper :: "string \<Rightarrow> nat list" where
  "py_upper s = concat (map upper_char s)"

definition code_points :: "string \<Rightarrow> nat list" where
  "code_points s = map of_char s"

text \<open>The substring test \<^verbatim>\<open>text in symbol\<close>.\<close>

primrec py_in :: "'a list \<Rightarrow> 'a list \<Rightarrow> bool" where
  "py_in t [] = (t = [])"
| "py_in t (c # cs) = (take (length t) (c # cs) = t \<or> py_in t cs)"

text \<open>
  The combo box, as Qt has it: \<^verbatim>\<open>clear()\<close> removes the items, and the text with
  them; on a box without items it changes nothing, the text included.
  \<^verbatim>\<open>addItems\<close> appends, and makes the first item current when the box was empty.
\<close>

definition combo_clear :: "'w main_window \<Rightarrow> 'w main_window" where
  "combo_clear s =
     (if symbol_combo_items s = [] then s
      else s\<lparr>symbol_combo_items := [], symbol_combo_text := []\<rparr>)"

definition combo_add_items :: "string list \<Rightarrow> 'w main_window \<Rightarrow> 'w main_window" where
  "combo_add_items xs s =
     s\<lparr>symbol_combo_items := symbol_combo_items s @ xs,
       symbol_combo_text :=
         (case (symbol_combo_items s, xs) of ([], x # _) \<Rightarrow> x | _ \<Rightarrow> symbol_combo_text s)\<rparr>"

text \<open>
  \<^verbatim>\<open>load_symbols\<close> of \<^verbatim>\<open>setup_symbol_search\<close>: the instrument list, sorted in
  place, becomes \<^verbatim>\<open>available_symbols\<close>. The answer of the session manager is
  \<open>None\<close> when the response is falsy or has no list, else the symbols of its items.
\<close>

definition load_symbols :: "'w env \<Rightarrow> 'w main_window \<Rightarrow> 'w main_window" where
  "load_symbols E s =
     (case sm_get_instruments_info E (world s) of
        (Inl e, w) \<Rightarrow> log_line (ErrLoadSymbols e) (s\<lparr>world := w\<rparr>)
      | (Inr None, w) \<Rightarrow> s\<lparr>world := w\<rparr>
      | (Inr (Some symbols), w) \<Rightarrow>
          (let s1 = s\<lparr>world := w, available_symbols := sort symbols\<rparr>;
               s2 = combo_add_items (available_symbols s1) (combo_clear s1);
               saved_symbol = config_symbol E w;
               s3 = (if saved_symbol \<in> set (symbol_combo_items s2)
                     then s2\<lparr>symbol_combo_text := saved_symbol\<rparr> else s2)
           in log_line InfoSymbolsLoaded s3))"


text \<open>
  \<^verbatim>\<open>filter_symbols\<close> of \<^verbatim>\<open>setup_symbol_search\<close>, the function the filter timer
  runs, and the method \<^verbatim>\<open>perform_filter\<close>, which reads \<^verbatim>\<open>all_symbols\<close> after it
  has cleared the box.
\<close>

definition filter_symbols :: "'w main_window \<Rightarrow> 'w main_window" where
  "filter_symbols s =
     (let search_text = py_upper (symbol_combo_text s);
          filtered_symbols =
            filter (\<lambda>symbol. py_in search_text (code_points symbol)) (available_symbols s);
          s1 = combo_add_items filtered_symbols (combo_clear s)
      in if filtered_symbols \<noteq> [] then s1\<lparr>symbol_combo_popup := True\<rparr> else s1)"

definition perform_filter :: "'w main_window \<Rightarrow> exn option \<times> 'w main_window" where
  "perform_filter s =
     (let text = py_upper (symbol_combo_text s);
          s1 = combo_clear s
      in case all_symbols s1 of
           None \<Rightarrow> (Some AttributeError, s1)
         | Some symbols \<Rightarrow>
             (let filtered_symbols = filter (\<lambda>symbol. py_in text (code_points symbol)) symbols;
                  s2 = combo_add_items filtered_symbols s1
              in (None, if filtered_symbols \<noteq> [] then s2\<lparr>symbol_combo_popup := True\<rparr> else s2)))"

subsection \<open>A window and collaborators to run the methods on\<close>

text \<open>
  The window as \<^verbatim>\<open>__init__\<close> leaves it, and collaborators that answer every call:
  one open position and one of size 0, one order, a balance of 100.
\<close>

definition initial_window :: "nat main_window" where
  "initial_window =
     \<lparr>update_queue = [],
      last_data = [''price'' \<mapsto> PyNum 0, ''positions'' \<mapsto> PyDict fmempty,
                   ''orders'' \<mapsto> PyDict fmempty, ''balance'' \<mapsto> PyNum 0],
      widgets = [''price'', ''positions'', ''orders'', ''balance'', ''chart''],
      price_label = LabelInitial,
      balance_label = LabelInitial,
      positions_table = [],
      orders_table = [],
      symbol_combo_items = [],
      symbol_combo_text = [],
      symbol_combo_popup = False,
      available_symbols = [],
      all_symbols = None,
      current_symbol = None,
      positions_update_needed = False,
      orders_update_needed = False,
      logged = [],
      messages = [],
      requests = [],
      invoked = [],
      world = 0\<rparr>"

definition btc_position :: position where
  "btc_position =
     \<lparr>pos_symbol = ''BTCUSDT'', pos_side = ''Buy'', pos_size = 1 / 100,
      pos_avgPrice = 60000, pos_markPrice = 61000, pos_unrealisedPnl = 10,
      pos_ROE = 5 / 2, pos_takeProfit = None, pos_stopLoss = None\<rparr>"

definition eth_position :: position where
  "eth_position =
     \<lparr>pos_symbol = ''ETHUSDT'', pos_side = ''Sell'', pos_size = 0,
      pos_avgPrice = 0, pos_markPrice = 3000, pos_unrealisedPnl = 0,
      pos_ROE = 0, pos_takeProfit = None, pos_stopLoss = None\<rparr>"

definition btc_order :: order where
  "btc_order =
     \<lparr>ord_symbol = ''BTCUSDT'', ord_side = ''Sell'', ord_orderType = ''Limit'',
      ord_price = 65000, ord_qty = 1 / 100, ord_profit = 50, ord_status = ''New''\<rparr>"

definition ok_response :: response where
  "ok_response = \<lparr>retCode = Some 0, retMsg = Some ''OK''\<rparr>"

definition demo_env :: "nat env" where
  "demo_env =
     \<lparr>dm_update_all = (\<lambda>w. (None, Suc w)),
      pm_get_positions = (\<lambda>w. (Inr [eth_position, btc_position], Suc w)),
      api_place_order = (\<lambda>symb sz w. (Inr (Some ok_response), Suc w)),
      om_get_orders = (\<lambda>w. (Inr [btc_order], Suc w)),
      sm_get_wallet_balance = (\<lambda>w. (Inr (PyNum 100), Suc w)),
      sm_set_trading_stop = (\<lambda>ps w. (Inr (Some ok_response), Suc w)),
      sm_get_instruments_info = (\<lambda>w. (Inr (Some [''ETHUSDT'', ''BTCUSDT'']), Suc w)),
      eh_handle_bybit_error = (\<lambda>r w. (None, w)),
      chart_update_price = (\<lambda>price w. (None, w)),
      chart_update_positions_and_orders = (\<lambda>ps ods w. (None, w)),
      ws_send = (\<lambda>txt w. (None, Suc w)),
      sl_tp_dialog = (\<lambda>position w. (Some (PyNum 70000, PyNone), w)),
      config_symbol = (\<lambda>w. ''BTCUSDT''),
      config_save_symbol = (\<lambda>symbol w. (None, w)),
      dm_change_symbol = (\<lambda>symbol w. (None, w)),
      pm_change_symbol = (\<lambda>symbol w. (None, w)),
      om_change_symbol = (\<lambda>symbol w. (None, w))\<rparr>"

text \<open>The same collaborators with a position manager whose fetch raises.\<close>

definition positions_down_env :: "nat env" where
  "positions_down_env =
     demo_env\<lparr>pm_get_positions := (\<lambda>w. (Inl (Failure ''timeout''), Suc w))\<rparr>"

subsection \<open>Notions the properties are stated with\<close>

text \<open>
  The handler calls that the branch of a widget id makes, the values published to a topic
  in a queue (oldest first), and the handler calls a run added to the window.
\<close>

definition calls_of :: "string \<Rightarrow> pyval \<Rightarrow> handler_call list" where
  "calls_of widget_id d =
     (if widget_id = ''price'' then [HandlePrice d]
      else if widget_id = ''positions'' then [HandlePositions d]
      else if widget_id = ''orders'' then [HandleOrders]
      else if widget_id = ''balance'' then [HandleBalance d]
      else [])"

definition published :: "(string \<times> pyval) list list \<Rightarrow> string \<Rightarrow> pyval list" where
  "published queue t = map snd (filter (\<lambda>kv. fst kv = t) (concat queue))"

definition new_calls :: "'w main_window \<Rightarrow> 'w main_window \<Rightarrow> handler_call list" where
  "new_calls s s' = drop (length (invoked s)) (invoked s')"

text \<open>Ten price updates queued within one flush window.\<close>

definition burst_window :: "nat main_window" where
  "burst_window =
     initial_window\<lparr>update_queue := map (\<lambda>n. [(''price'', PyNum (of_nat n))]) [1..<11]\<rparr>"

text \<open>
  A queue that holds a price of None, a batch that mixes it with a balance, and the
  windows the flushes leave.
\<close>

definition poisoned_window :: "nat main_window" where
  "poisoned_window = initial_window\<lparr>update_queue := [[(''price'', PyNone)]]\<rparr>"

definition after_poisoned_flush :: "nat main_window" where
  "after_poisoned_flush = snd (process_updates demo_env poisoned_window)"

definition mixed_batch_window :: "nat main_window" where
  "mixed_batch_window =
     initial_window\<lparr>update_queue := [[(''price'', PyNone), (''balance'', PyNum 5)]]\<rparr>"

definition after_burst :: "nat main_window" where
  "after_burst = snd (process_updates demo_env burst_window)"

definition balance_recorded :: "nat main_window" where
  "balance_recorded =
     initial_window\<lparr>balance_label := BalanceRaw (PyNum 5),
                    last_data := (last_data initial_window)(''balance'' \<mapsto> PyNum 5),
                    invoked := [HandleBalance (PyNum 5)]\<rparr>"

text \<open>
  Text that \<^verbatim>\<open>json.dumps\<close> writes as it is, between quotation marks: printable ASCII
  without the quotation mark and the backslash.
\<close>

definition plain_text :: "string \<Rightarrow> bool" where
  "plain_text s =
     (\<forall>c\<in>set s. 32 \<le> (of_char c :: nat) \<and> (of_char c :: nat) \<le> 126
                  \<and> c \<noteq> CHR 0x22 \<and> c \<noteq> CHR 0x5C)"

definition quoted :: "string \<Rightarrow> string" where
  "quoted s = [CHR 0x22] @ s @ [CHR 0x22]"

text \<open>
  Containment of a text in a symbol up to the case of letters: the upper case of the text
  is a substring of the upper case of the symbol.
\<close>

definition contains_ignoring_case :: "string \<Rightarrow> string \<Rightarrow> bool" where
  "contains_ignoring_case t symbol = py_in (py_upper t) (py_upper symbol)"


definition shown_btc_window :: "nat main_window" where
  "shown_btc_window = initial_window\<lparr>positions_table := [position_row_of btc_position]\<rparr>"

definition upper_case_window :: "nat main_window" where
  "upper_case_window =
     initial_window\<lparr>available_symbols := [''BTCUSDT'', ''ETHUSDT''], symbol_combo_text := ''eth''\<rparr>"

definition mixed_case_window :: "nat main_window" where
  "mixed_case_window =
     initial_window\<lparr>available_symbols := [''BTCUSDT'', ''ethUSDT''], symbol_combo_text := ''eth''\<rparr>"

definition sharp_s_window :: "nat main_window" where
  "sharp_s_window =
     initial_window\<lparr>available_symbols := [''BTCUSDT'', ''SSVUSDT''],
                    symbol_combo_text := [CHR 0xDF]\<rparr>"



text \<open>Two publishes to the orders topic within one flush window.\<close>

definition orders_window :: "nat main_window" where
  "orders_window =
     initial_window\<lparr>update_queue :=
       [[(''orders'', PyList [PyStr ''order-1''])],
        [(''orders'', PyList [PyStr ''order-1'', PyStr ''order-2''])]]\<rparr>"

section \<open>Properties\<close>

subsection \<open>What the handlers leave alone\<close>

lemma call_get_positions_frame:
  "call_get_positions E s = (r, s') \<Longrightarrow>
     invoked s' = invoked s \<and> last_data s' = last_data s \<and> widgets s' = widgets s"
  by (auto simp add: call_get_positions_def split: prod.splits)

lemma call_get_orders_frame:
  "call_get_orders E s = (r, s') \<Longrightarrow>
     invoked s' = invoked s \<and> last_data s' = last_data s \<and> widgets s' = widgets s"
  by (auto simp add: call_get_orders_def split: prod.splits)

lemma log_line_frame [simp]:
  "invoked (log_line l s) = invoked s"
  "last_data (log_line l s) = last_data s"
  "widgets (log_line l s) = widgets s"
  by (simp_all add: log_line_def)

lemma update_positions_table_frame [simp]:
  "invoked (update_positions_table E a s) = invoked s"
  "last_data (update_positions_table E a s) = last_data s"
  "widgets (update_positions_table E a s) = widgets s"
  by (auto simp add: update_positions_table_def split: prod.splits sum.splits
      dest: call_get_positions_frame)

lemma update_orders_table_frame [simp]:
  "invoked (update_orders_table E s) = invoked s"
  "last_data (update_orders_table E s) = last_data s"
  "widgets (update_orders_table E s) = widgets s"
  by (auto simp add: update_orders_table_def split: prod.splits sum.splits
      dest: call_get_orders_frame)

lemma update_chart_positions_frame [simp]:
  "invoked (update_chart_positions E s) = invoked s"
  "last_data (update_chart_positions E s) = last_data s"
  "widgets (update_chart_positions E s) = widgets s"
  by (auto simp add: update_chart_positions_def split: prod.splits sum.splits option.splits
      dest!: call_get_positions_frame call_get_orders_frame)

lemma dispatch_last_data: "last_data (snd (dispatch E k d s)) = last_data s"
  by (simp add: dispatch_def handle_price_update_def handle_positions_update_def
      handle_orders_update_def handle_balance_update_def note_call_def
      split: sum.splits prod.splits)

lemma dispatch_widgets: "widgets (snd (dispatch E k d s)) = widgets s"
  by (simp add: dispatch_def handle_price_update_def handle_positions_update_def
      handle_orders_update_def handle_balance_update_def note_call_def
      split: sum.splits prod.splits)

lemma dispatch_invoked: "invoked (snd (dispatch E k d s)) = invoked s @ calls_of k d"
  by (simp add: dispatch_def handle_price_update_def handle_positions_update_def
      handle_orders_update_def handle_balance_update_def note_call_def calls_of_def
      split: sum.splits prod.splits)

lemma calls_of_topic: "c \<in> set (calls_of k d) \<Longrightarrow> call_topic c = k"
  by (auto simp add: calls_of_def split: if_splits)

subsection \<open>The loop of the batched update\<close>

lemma dispatch_frame:
  "dispatch E k d s = (r, s1) \<Longrightarrow>
     widgets s1 = widgets s \<and> last_data s1 = last_data s \<and> invoked s1 = invoked s @ calls_of k d"
  using dispatch_widgets [of E k d s] dispatch_last_data [of E k d s] dispatch_invoked [of E k d s]
  by simp

lemma update_ui_private_other_keys:
  "k \<notin> fst ` set us \<Longrightarrow> last_data (snd (update_ui_private E us s)) k = last_data s k"
proof (induction us arbitrary: s)
  case Nil
  show ?case by simp
next
  case (Cons kd us)
  obtain k' d where kd: "kd = (k', d)" by (cases kd)
  from Cons.prems kd have ne: "k \<noteq> k'" and rest: "k \<notin> fst ` set us" by auto
  show ?case
    using Cons.IH [OF rest] ne
    by (auto simp add: kd split: prod.splits option.splits dest!: dispatch_frame)
qed

lemma update_ui_private_invoked:
  "\<exists>cs. invoked (snd (update_ui_private E us s)) = invoked s @ cs
     \<and> (\<forall>t. length (filter (\<lambda>c. call_topic c = t) cs) \<le> length (filter (\<lambda>kv. fst kv = t) us))
     \<and> (\<forall>c\<in>set cs. \<exists>d. (call_topic c, d) \<in> set us \<and> c \<in> set (calls_of (call_topic c) d))"
proof (induction us arbitrary: s)
  case Nil
  show ?case by simp
next
  case (Cons kd us)
  obtain k d where kd: "kd = (k, d)" by (cases kd)
  let ?P = "\<lambda>s0 cs us. invoked (snd (update_ui_private E us s)) = invoked s0 @ cs
     \<and> (\<forall>t. length (filter (\<lambda>c. call_topic c = t) cs) \<le> length (filter (\<lambda>kv. fst kv = t) us))
     \<and> (\<forall>c\<in>set cs. \<exists>d. (call_topic c, d) \<in> set us \<and> c \<in> set (calls_of (call_topic c) d))"
  have count1: "length (filter (\<lambda>c. call_topic c = t) (calls_of k d)) \<le> (if k = t then 1 else 0)" for t
    by (auto simp add: calls_of_def)
  have mem1: "c \<in> set (calls_of k d) \<Longrightarrow> call_topic c = k" for c
    by (rule calls_of_topic)
  consider
      (same) "py_get (last_data s) k = d"
    | (unregistered) "py_get (last_data s) k \<noteq> d" "k \<notin> set (widgets s)"
    | (raised) e s1 where "py_get (last_data s) k \<noteq> d" "k \<in> set (widgets s)"
        "dispatch E k d s = (Some e, s1)"
    | (returned) s1 where "py_get (last_data s) k \<noteq> d" "k \<in> set (widgets s)"
        "dispatch E k d s = (None, s1)"
  proof -
    obtain r s1 where ds: "dispatch E k d s = (r, s1)" by (cases "dispatch E k d s")
    show ?thesis
      using that ds by (cases r) blast+
  qed
  then show ?case
  proof cases
    case same
    from Cons.IH [of s] obtain cs where
      cs: "invoked (snd (update_ui_private E us s)) = invoked s @ cs"
        "\<forall>t. length (filter (\<lambda>c. call_topic c = t) cs) \<le> length (filter (\<lambda>kv. fst kv = t) us)"
        "\<forall>c\<in>set cs. \<exists>d. (call_topic c, d) \<in> set us \<and> c \<in> set (calls_of (call_topic c) d)"
      by blast
    have "\<forall>t. length (filter (\<lambda>c. call_topic c = t) cs) \<le> length (filter (\<lambda>kv. fst kv = t) (kd # us))"
      using cs(2) by (auto intro: le_SucI)
    moreover have "\<forall>c\<in>set cs. \<exists>d. (call_topic c, d) \<in> set (kd # us) \<and> c \<in> set (calls_of (call_topic c) d)"
      using cs(3) by auto
    ultimately show ?thesis
      using same cs(1) by (auto simp add: kd)
  next
    case unregistered
    let ?s1 = "s\<lparr>last_data := (last_data s)(k \<mapsto> d)\<rparr>"
    from Cons.IH [of ?s1] obtain cs where
      cs: "invoked (snd (update_ui_private E us ?s1)) = invoked ?s1 @ cs"
        "\<forall>t. length (filter (\<lambda>c. call_topic c = t) cs) \<le> length (filter (\<lambda>kv. fst kv = t) us)"
        "\<forall>c\<in>set cs. \<exists>d. (call_topic c, d) \<in> set us \<and> c \<in> set (calls_of (call_topic c) d)"
      by blast
    have "\<forall>t. length (filter (\<lambda>c. call_topic c = t) cs) \<le> length (filter (\<lambda>kv. fst kv = t) (kd # us))"
      using cs(2) by (auto intro: le_SucI)
    moreover have "\<forall>c\<in>set cs. \<exists>d. (call_topic c, d) \<in> set (kd # us) \<and> c \<in> set (calls_of (call_topic c) d)"
      using cs(3) by auto
    ultimately show ?thesis
      using unregistered cs(1) by (auto simp add: kd)
  next
    case raised
    from dispatch_frame [OF raised(3)] have inv: "invoked s1 = invoked s @ calls_of k d" by simp
    have "\<forall>t. length (filter (\<lambda>c. call_topic c = t) (calls_of k d)) \<le> length (filter (\<lambda>kv. fst kv = t) (kd # us))"
    proof
      fix t
      show "length (filter (\<lambda>c. call_topic c = t) (calls_of k d)) \<le> length (filter (\<lambda>kv. fst kv = t) (kd # us))"
        using count1 [of t] by (cases "k = t") (simp_all add: kd)
    qed
    moreover have "\<forall>c\<in>set (calls_of k d). \<exists>d'. (call_topic c, d') \<in> set (kd # us) \<and> c \<in> set (calls_of (call_topic c) d')"
      using mem1 by (auto simp add: kd)
    ultimately show ?thesis
      using raised inv by (auto simp add: kd)
  next
    case returned
    from dispatch_frame [OF returned(3)] have inv: "invoked s1 = invoked s @ calls_of k d" by simp
    let ?s2 = "s1\<lparr>last_data := (last_data s1)(k \<mapsto> d)\<rparr>"
    from Cons.IH [of ?s2] obtain cs where
      cs: "invoked (snd (update_ui_private E us ?s2)) = invoked ?s2 @ cs"
        "\<forall>t. length (filter (\<lambda>c. call_topic c = t) cs) \<le> length (filter (\<lambda>kv. fst kv = t) us)"
        "\<forall>c\<in>set cs. \<exists>d. (call_topic c, d) \<in> set us \<and> c \<in> set (calls_of (call_topic c) d)"
      by blast
    have "\<forall>t. length (filter (\<lambda>c. call_topic c = t) (calls_of k d @ cs)) \<le> length (filter (\<lambda>kv. fst kv = t) (kd # us))"
    proof
      fix t
      show "length (filter (\<lambda>c. call_topic c = t) (calls_of k d @ cs)) \<le> length (filter (\<lambda>kv. fst kv = t) (kd # us))"
        using count1 [of t] cs(2) [rule_format, of t] by (cases "k = t") (simp_all add: kd)
    qed
    moreover have "\<forall>c\<in>set (calls_of k d @ cs). \<exists>d'. (call_topic c, d') \<in> set (kd # us) \<and> c \<in> set (calls_of (call_topic c) d')"
      using mem1 cs(3) by (auto simp add: kd)
    moreover have "invoked (snd (update_ui_private E (kd # us) s)) = invoked s @ (calls_of k d @ cs)"
      using returned cs(1) inv by (simp add: kd)
    ultimately show ?thesis by blast
  qed
qed


subsection \<open>Draining the queue\<close>

lemma map_of_dict_update:
  "map_of (dict_update u d) t =
     (if filter (\<lambda>kv. fst kv = t) d = [] then map_of u t
      else Some (last (map snd (filter (\<lambda>kv. fst kv = t) d))))"
proof (induction d arbitrary: u)
  case Nil
  show ?case by (simp add: dict_update_def)
next
  case (Cons kv d)
  obtain k v where kv: "kv = (k, v)" by (cases kv)
  have step: "dict_update u (kv # d) = dict_update (AList.update k v u) d"
    by (simp add: dict_update_def kv)
  show ?case
    unfolding step Cons.IH
    by (simp add: kv update_conv')
qed

lemma distinct_dict_update:
  "distinct (map fst u) \<Longrightarrow> distinct (map fst (dict_update u d))"
proof (induction d arbitrary: u)
  case Nil
  then show ?case by (simp add: dict_update_def)
next
  case (Cons kv d)
  obtain k v where kv: "kv = (k, v)" by (cases kv)
  have step: "dict_update u (kv # d) = dict_update (AList.update k v u) d"
    by (simp add: dict_update_def kv)
  show ?case
    unfolding step using Cons.prems by (intro Cons.IH distinct_update)
qed

lemma dict_update_append: "dict_update u (d1 @ d2) = dict_update (dict_update u d1) d2"
  by (simp add: dict_update_def)

lemma fold_dict_update: "fold (\<lambda>d u. dict_update u d) q u = dict_update u (concat q)"
  by (induction q arbitrary: u) (simp_all add: dict_update_append, simp add: dict_update_def)

lemma drain_distinct: "distinct (map fst (drain q))"
  by (simp add: drain_def fold_dict_update distinct_dict_update)

lemma drain_last_published:
  assumes "(t, d) \<in> set (drain q)"
  shows "published q t \<noteq> [] \<and> d = last (published q t)"
proof -
  from assms have "map_of (drain q) t = Some d"
    using drain_distinct [of q] by simp
  then show ?thesis
    by (simp add: drain_def fold_dict_update map_of_dict_update published_def split: if_splits)
qed

lemma distinct_keys_once:
  "distinct (map fst us) \<Longrightarrow> length (filter (\<lambda>kv. fst kv = t) us) \<le> 1"
  by (induction us) (auto simp add: filter_empty_conv image_iff)

subsection \<open>One step of the loop, and what the loop keeps\<close>

lemma update_ui_private_cases:
  obtains
    (same) "py_get (last_data s) k = d"
      "update_ui_private E ((k, d) # us) s = update_ui_private E us s"
  | (unregistered) "py_get (last_data s) k \<noteq> d" "k \<notin> set (widgets s)"
      "update_ui_private E ((k, d) # us) s =
         update_ui_private E us (s\<lparr>last_data := (last_data s)(k \<mapsto> d)\<rparr>)"
  | (raised) e s1 where "py_get (last_data s) k \<noteq> d" "k \<in> set (widgets s)"
      "dispatch E k d s = (Some e, s1)"
      "update_ui_private E ((k, d) # us) s = (Some e, s1)"
  | (returned) s1 where "py_get (last_data s) k \<noteq> d" "k \<in> set (widgets s)"
      "dispatch E k d s = (None, s1)"
      "update_ui_private E ((k, d) # us) s =
         update_ui_private E us (s1\<lparr>last_data := (last_data s1)(k \<mapsto> d)\<rparr>)"
proof -
  obtain r s1 where ds: "dispatch E k d s = (r, s1)" by (cases "dispatch E k d s")
  show ?thesis
  proof (cases "py_get (last_data s) k = d")
    case True
    then show ?thesis using same by simp
  next
    case changed: False
    show ?thesis
    proof (cases "k \<in> set (widgets s)")
      case False
      then show ?thesis using changed unregistered by simp
    next
      case True
      show ?thesis
      proof (cases r)
        case None
        then show ?thesis using changed True ds returned by simp
      next
        case (Some e)
        then show ?thesis using changed True ds raised by simp
      qed
    qed
  qed
qed

lemma update_ui_private_changed:
  assumes "distinct (map fst us)"
    and "invoked (snd (update_ui_private E us s)) = invoked s @ cs"
    and "c \<in> set cs"
  shows "\<exists>d. (call_topic c, d) \<in> set us \<and> py_get (last_data s) (call_topic c) \<noteq> d
           \<and> call_topic c \<in> set (widgets s)"
  using assms
proof (induction us arbitrary: s cs)
  case Nil
  then show ?case by simp
next
  case (Cons kd us)
  obtain k d where kd: "kd = (k, d)" by (cases kd)
  from Cons.prems(1) kd have fresh: "k \<notin> fst ` set us" and dist: "distinct (map fst us)"
    by auto
  have other: "call_topic c \<noteq> k" if "(call_topic c, d') \<in> set us" for d'
    using that fresh by force
  show ?case
  proof (cases rule: update_ui_private_cases [of s k d E us])
    case same
    from Cons.IH [OF dist, of s cs] Cons.prems(2,3) same(2) show ?thesis
      by (auto simp add: kd)
  next
    case unregistered
    let ?s1 = "s\<lparr>last_data := (last_data s)(k \<mapsto> d)\<rparr>"
    from Cons.prems(2) unregistered(3)
    have "invoked (snd (update_ui_private E us ?s1)) = invoked ?s1 @ cs"
      by (simp add: kd)
    from Cons.IH [OF dist this Cons.prems(3)] obtain d' where
      d': "(call_topic c, d') \<in> set us" "py_get (last_data ?s1) (call_topic c) \<noteq> d'"
        "call_topic c \<in> set (widgets ?s1)"
      by blast
    from other [OF d'(1)] d' show ?thesis
      by (auto simp add: kd py_get_def)
  next
    case (raised e s1)
    from dispatch_frame [OF raised(3)] Cons.prems(2) raised(4)
    have "cs = calls_of k d" by (simp add: kd)
    with Cons.prems(3) have "call_topic c = k" by (auto dest: calls_of_topic)
    with raised(1,2) show ?thesis by (auto simp add: kd)
  next
    case (returned s1)
    let ?s2 = "s1\<lparr>last_data := (last_data s1)(k \<mapsto> d)\<rparr>"
    from dispatch_frame [OF returned(3)]
    have fr: "widgets s1 = widgets s" "last_data s1 = last_data s"
      "invoked s1 = invoked s @ calls_of k d" by simp_all
    from update_ui_private_invoked [of E us ?s2] obtain cs' where
      cs': "invoked (snd (update_ui_private E us ?s2)) = invoked ?s2 @ cs'" by blast
    with Cons.prems(2) returned(4) fr(3) have split: "cs = calls_of k d @ cs'"
      by (simp add: kd)
    show ?thesis
    proof (cases "c \<in> set (calls_of k d)")
      case True
      then have "call_topic c = k" by (rule calls_of_topic)
      with returned(1,2) show ?thesis by (auto simp add: kd)
    next
      case False
      with Cons.prems(3) split have "c \<in> set cs'" by simp
      from Cons.IH [OF dist cs' this] obtain d' where
        d': "(call_topic c, d') \<in> set us" "py_get (last_data ?s2) (call_topic c) \<noteq> d'"
          "call_topic c \<in> set (widgets ?s2)"
        by blast
      from other [OF d'(1)] d' fr show ?thesis
        by (auto simp add: kd py_get_def)
    qed
  qed
qed

lemma update_ui_private_recorded:
  assumes "distinct (map fst us)"
    and "fst (update_ui_private E us s) = None"
    and "(t, v) \<in> set us"
  shows "py_get (last_data (snd (update_ui_private E us s))) t = v"
  using assms
proof (induction us arbitrary: s)
  case Nil
  then show ?case by simp
next
  case (Cons kd us)
  obtain k d where kd: "kd = (k, d)" by (cases kd)
  from Cons.prems(1) kd have fresh: "k \<notin> fst ` set us" and dist: "distinct (map fst us)"
    by auto
  show ?case
  proof (cases rule: update_ui_private_cases [of s k d E us])
    case same
    show ?thesis
    proof (cases "(t, v) \<in> set us")
      case True
      from Cons.IH [OF dist _ True, of s] Cons.prems(2) same(2) show ?thesis
        by (simp add: kd)
    next
      case False
      with Cons.prems(3) kd have tv: "t = k" "v = d" by auto
      from update_ui_private_other_keys [OF fresh, of E s] same show ?thesis
        by (simp add: kd tv py_get_def)
    qed
  next
    case unregistered
    let ?s1 = "s\<lparr>last_data := (last_data s)(k \<mapsto> d)\<rparr>"
    show ?thesis
    proof (cases "(t, v) \<in> set us")
      case True
      from Cons.IH [OF dist _ True, of ?s1] Cons.prems(2) unregistered(3) show ?thesis
        by (simp add: kd)
    next
      case False
      with Cons.prems(3) kd have tv: "t = k" "v = d" by auto
      from update_ui_private_other_keys [OF fresh, of E ?s1] unregistered(3) show ?thesis
        by (simp add: kd tv py_get_def)
    qed
  next
    case (raised e s1)
    with Cons.prems(2) show ?thesis by (simp add: kd)
  next
    case (returned s1)
    let ?s2 = "s1\<lparr>last_data := (last_data s1)(k \<mapsto> d)\<rparr>"
    show ?thesis
    proof (cases "(t, v) \<in> set us")
      case True
      from Cons.IH [OF dist _ True, of ?s2] Cons.prems(2) returned(4) show ?thesis
        by (simp add: kd)
    next
      case False
      with Cons.prems(3) kd have tv: "t = k" "v = d" by auto
      from update_ui_private_other_keys [OF fresh, of E ?s2] returned(4) show ?thesis
        by (simp add: kd tv py_get_def)
    qed
  qed
qed

subsection \<open>Coalescing\<close>

lemma process_updates_changed:
  assumes "c \<in> set (new_calls s (snd (process_updates E s)))"
  shows "\<exists>d. (call_topic c, d) \<in> set (drain (update_queue s))
           \<and> py_get (last_data s) (call_topic c) \<noteq> d"
proof (cases "update_queue s = []")
  case True
  with assms show ?thesis by (simp add: process_updates_def new_calls_def)
next
  case False
  let ?us = "drain (update_queue s)"
  let ?s0 = "s\<lparr>update_queue := []\<rparr>"
  from update_ui_private_invoked [of E ?us ?s0] obtain cs where
    cs: "invoked (snd (update_ui_private E ?us ?s0)) = invoked ?s0 @ cs" by blast
  with assms False have "c \<in> set cs"
    by (simp add: process_updates_def new_calls_def)
  from update_ui_private_changed [OF drain_distinct cs this] show ?thesis by auto
qed

lemma calls_of_arg_exact:
  "c \<in> set (calls_of k d) \<Longrightarrow> call_arg c = (if k = ''orders'' then None else Some d)"
  by (auto simp add: calls_of_def split: if_splits)

text \<open>
  Claim C2, as the code has it. In one flush, the publishes queued for a topic lead to at
  most one handler call for that topic. The call is made for the last value published to
  the topic in the window, which differs from the snapshot; the price, positions and
  balance handlers are passed that value, and the orders handler, which has no
  parameter, is called without it.
\<close>

theorem process_updates_coalesces:
  "length (filter (\<lambda>c. call_topic c = t) (new_calls s (snd (process_updates E s)))) \<le> 1
   \<and> (\<forall>c\<in>set (new_calls s (snd (process_updates E s))). call_topic c = t \<longrightarrow>
         published (update_queue s) t \<noteq> []
         \<and> py_get (last_data s) t \<noteq> last (published (update_queue s) t)
         \<and> call_arg c
             = (if t = ''orders'' then None else Some (last (published (update_queue s) t))))"
proof (cases "update_queue s = []")
  case True
  then show ?thesis by (simp add: process_updates_def new_calls_def)
next
  case False
  let ?us = "drain (update_queue s)"
  let ?s0 = "s\<lparr>update_queue := []\<rparr>"
  from update_ui_private_invoked [of E ?us ?s0] obtain cs where
    cs: "invoked (snd (update_ui_private E ?us ?s0)) = invoked ?s0 @ cs"
      "\<forall>t. length (filter (\<lambda>c. call_topic c = t) cs) \<le> length (filter (\<lambda>kv. fst kv = t) ?us)"
      "\<forall>c\<in>set cs. \<exists>d. (call_topic c, d) \<in> set ?us \<and> c \<in> set (calls_of (call_topic c) d)"
    by blast
  have new: "new_calls s (snd (process_updates E s)) = cs"
    using False cs(1) by (simp add: process_updates_def new_calls_def)
  have "length (filter (\<lambda>c. call_topic c = t) cs) \<le> 1"
    using cs(2) [rule_format, of t] distinct_keys_once [OF drain_distinct, of t "update_queue s"]
    by linarith
  moreover have "published (update_queue s) t \<noteq> []
         \<and> py_get (last_data s) t \<noteq> last (published (update_queue s) t)
         \<and> call_arg c
             = (if t = ''orders'' then None else Some (last (published (update_queue s) t)))"
    if c: "c \<in> set cs" and t: "call_topic c = t" for c
  proof -
    from cs(3) c t obtain d where d: "(t, d) \<in> set ?us" "c \<in> set (calls_of t d)" by auto
    from c new have "c \<in> set (new_calls s (snd (process_updates E s)))" by simp
    from process_updates_changed [OF this] t obtain d' where
      d': "(t, d') \<in> set ?us" "py_get (last_data s) t \<noteq> d'" by auto
    from drain_last_published [OF d(1)] drain_last_published [OF d'(1)] d'(2)
      calls_of_arg_exact [OF d(2)]
    show ?thesis by simp
  qed
  ultimately show ?thesis unfolding new by blast
qed

theorem process_updates_coalesces_witness:
  "new_calls burst_window (snd (process_updates demo_env burst_window)) = [HandlePrice (PyNum 10)]
   \<and> length (filter (\<lambda>c. call_topic c = ''price'')
        (new_calls burst_window (snd (process_updates demo_env burst_window)))) \<le> 1
   \<and> length (published (update_queue burst_window) ''price'') = 10
   \<and> last (published (update_queue burst_window) ''price'') = PyNum 10"
proof -
  have run: "new_calls burst_window (snd (process_updates demo_env burst_window))
      = [HandlePrice (PyNum 10)]"
    by (simp add: burst_window_def new_calls_def process_updates_def drain_def dict_update_def
        upt_rec initial_window_def py_get_def dispatch_def note_call_def handle_price_update_def
        demo_env_def)
  have pub: "length (published (update_queue burst_window) ''price'') = 10"
    by (simp add: burst_window_def published_def)
  from process_updates_coalesces [of "''price''" burst_window demo_env] run pub
  show ?thesis by simp
qed

lemma single_dispatch_invoked:
  "py_get (last_data s) k \<noteq> d \<Longrightarrow> k \<in> set (widgets s) \<Longrightarrow>
     invoked (snd (update_ui_private E [(k, d)] s)) = invoked s @ calls_of k d"
  using dispatch_invoked [of E k d s]
  by (cases "dispatch E k d s") (auto split: option.splits)

text \<open>
  The claim as it is stated fails for the orders topic: after two publishes the one
  handler call carries no value.
\<close>

theorem process_updates_orders_counterexample:
  "new_calls orders_window (snd (process_updates demo_env orders_window)) = [HandleOrders]
   \<and> call_arg HandleOrders = None
   \<and> last (published (update_queue orders_window) ''orders'')
       = PyList [PyStr ''order-1'', PyStr ''order-2'']"
proof -
  have batch: "drain (update_queue orders_window)
      = [(''orders'', PyList [PyStr ''order-1'', PyStr ''order-2''])]"
    by (simp add: orders_window_def drain_def dict_update_def)
  have queued: "update_queue orders_window \<noteq> []"
    by (simp add: orders_window_def)
  have changed: "py_get (last_data (orders_window\<lparr>update_queue := []\<rparr>)) ''orders''
      \<noteq> PyList [PyStr ''order-1'', PyStr ''order-2'']"
    by (simp add: orders_window_def initial_window_def py_get_def)
  have registered: "''orders'' \<in> set (widgets (orders_window\<lparr>update_queue := []\<rparr>))"
    by (simp add: orders_window_def initial_window_def)
  have "invoked (snd (process_updates demo_env orders_window))
      = invoked orders_window @ [HandleOrders]"
    using single_dispatch_invoked [OF changed registered, of demo_env] queued
    by (simp add: process_updates_def batch calls_of_def)
  then have calls: "new_calls orders_window (snd (process_updates demo_env orders_window))
      = [HandleOrders]"
    by (simp add: new_calls_def)
  have arg: "call_arg HandleOrders = None" by simp
  have pub: "last (published (update_queue orders_window) ''orders'')
       = PyList [PyStr ''order-1'', PyStr ''order-2'']"
    by (simp add: orders_window_def published_def)
  show ?thesis by (rule conjI [OF calls conjI [OF arg pub]])
qed

subsection \<open>Deduplication against the snapshot\<close>

lemma process_updates_recorded:
  assumes "fst (process_updates E s) = None" and "(t, v) \<in> set (drain (update_queue s))"
  shows "py_get (last_data (snd (process_updates E s))) t = v"
proof (cases "update_queue s = []")
  case True
  with assms(2) show ?thesis by (simp add: drain_def)
next
  case False
  with assms(1) have "fst (update_ui_private E (drain (update_queue s)) (s\<lparr>update_queue := []\<rparr>)) = None"
    by (simp add: process_updates_def)
  from update_ui_private_recorded [OF drain_distinct this assms(2)] False show ?thesis
    by (simp add: process_updates_def)
qed

lemma drain_unique:
  "(t, v) \<in> set (drain q) \<Longrightarrow> (t, d) \<in> set (drain q) \<Longrightarrow> d = v"
  using drain_distinct [of q] by (meson eq_key_imp_eq_value)

text \<open>
  Claim C1, as the code has it. In every flush a handler is called only for a topic
  whose coalesced value differs from the snapshot \<^verbatim>\<open>_last_data\<close> of that topic.
  When the flush returns without an exception, the snapshot holds the coalesced value of
  every topic of the batch, and a following flush whose batch has the same value for a
  topic does not call the handler of that topic. (\<open>s2\<close> is the window at the following
  flush: nothing but \<^verbatim>\<open>_update_ui\<close> writes the snapshot.)
\<close>

theorem process_updates_dedup:
  assumes "process_updates E s = (r, s1)"
    and "last_data s2 = last_data s1"
  shows "(\<forall>c\<in>set (new_calls s s1).
            \<exists>d. (call_topic c, d) \<in> set (drain (update_queue s))
               \<and> py_get (last_data s) (call_topic c) \<noteq> d)
       \<and> (r = None \<longrightarrow>
            (\<forall>(t, v)\<in>set (drain (update_queue s)).
               py_get (last_data s1) t = v
               \<and> ((t, v) \<in> set (drain (update_queue s2)) \<longrightarrow>
                    (\<forall>c\<in>set (new_calls s2 (snd (process_updates E' s2))). call_topic c \<noteq> t))))"
proof (intro conjI ballI impI)
  fix c assume "c \<in> set (new_calls s s1)"
  with assms(1) process_updates_changed [of c s E]
  show "\<exists>d. (call_topic c, d) \<in> set (drain (update_queue s))
           \<and> py_get (last_data s) (call_topic c) \<noteq> d" by simp
next
  fix tv assume none: "r = None" and tv: "tv \<in> set (drain (update_queue s))"
  obtain t v where [simp]: "tv = (t, v)" by (cases tv)
  from none assms(1) tv process_updates_recorded [of E s t v]
  have rec: "py_get (last_data s1) t = v" by simp
  have "call_topic c \<noteq> t"
    if again: "(t, v) \<in> set (drain (update_queue s2))"
      and c: "c \<in> set (new_calls s2 (snd (process_updates E' s2)))" for c
  proof
    assume "call_topic c = t"
    with process_updates_changed [OF c] obtain d where
      d: "(t, d) \<in> set (drain (update_queue s2))" "py_get (last_data s2) t \<noteq> d" by auto
    from drain_unique [OF again d(1)] rec assms(2) d(2) show False by simp
  qed
  with rec show "case tv of (t, v) \<Rightarrow> py_get (last_data s1) t = v
               \<and> ((t, v) \<in> set (drain (update_queue s2)) \<longrightarrow>
                    (\<forall>c\<in>set (new_calls s2 (snd (process_updates E' s2))). call_topic c \<noteq> t))"
    by simp
qed

lemma after_burst_eval:
  "process_updates demo_env burst_window = (None, after_burst)"
  "last_data after_burst ''price'' = Some (PyNum 10)"
  by (simp_all add: after_burst_def burst_window_def process_updates_def drain_def dict_update_def
        upt_rec initial_window_def py_get_def dispatch_def note_call_def handle_price_update_def
        demo_env_def)

theorem process_updates_dedup_witness:
  "fst (process_updates demo_env burst_window) = None
   \<and> (''price'', PyNum 10) \<in> set (drain (update_queue burst_window))
   \<and> py_get (last_data after_burst) ''price'' = PyNum 10
   \<and> HandlePrice (PyNum 10) \<notin> set (new_calls (after_burst\<lparr>update_queue := [[(''price'', PyNum 10)]]\<rparr>)
        (snd (process_updates demo_env (after_burst\<lparr>update_queue := [[(''price'', PyNum 10)]]\<rparr>))))"
proof -
  let ?s2 = "after_burst\<lparr>update_queue := [[(''price'', PyNum 10)]]\<rparr>"
  have run: "process_updates demo_env burst_window = (None, after_burst)"
    by (rule after_burst_eval)
  have same: "last_data ?s2 = last_data after_burst" by simp
  have first: "(''price'', PyNum 10) \<in> set (drain (update_queue burst_window))"
    by (simp add: burst_window_def drain_def dict_update_def upt_rec)
  have again: "(''price'', PyNum 10) \<in> set (drain (update_queue ?s2))"
    by (simp add: drain_def dict_update_def)
  from process_updates_dedup [OF run same, of demo_env] first again
  have "py_get (last_data after_burst) ''price'' = PyNum 10"
    and "\<forall>c\<in>set (new_calls ?s2 (snd (process_updates demo_env ?s2))). call_topic c \<noteq> ''price''"
    by auto
  then show ?thesis using run first by auto
qed

text \<open>
  The claim as it is stated does not hold for a flush in which a handler raises: a
  price of None makes the price handler raise TypeError, the snapshot keeps the old
  price, and the next flush delivers the same value again.
\<close>

theorem process_updates_dedup_counterexample:
  "fst (process_updates demo_env poisoned_window) = Some TypeError
   \<and> new_calls poisoned_window after_poisoned_flush = [HandlePrice PyNone]
   \<and> last_data after_poisoned_flush ''price'' = Some (PyNum 0)
   \<and> new_calls (after_poisoned_flush\<lparr>update_queue := [[(''price'', PyNone)]]\<rparr>)
        (snd (process_updates demo_env (after_poisoned_flush\<lparr>update_queue := [[(''price'', PyNone)]]\<rparr>)))
      = [HandlePrice PyNone]"
  by (simp add: after_poisoned_flush_def poisoned_window_def process_updates_def drain_def
      dict_update_def new_calls_def initial_window_def py_get_def dispatch_def note_call_def
      handle_price_update_def demo_env_def)

subsection \<open>A handler that raises\<close>

lemma update_ui_private_append:
  "update_ui_private E (xs @ ys) s =
     (case update_ui_private E xs s of
        (Some e, s1) \<Rightarrow> (Some e, s1)
      | (None, s1) \<Rightarrow> update_ui_private E ys s1)"
proof (induction xs arbitrary: s)
  case Nil
  show ?case by simp
next
  case (Cons kd xs)
  obtain k d where kd: "kd = (k, d)" by (cases kd)
  show ?case
  proof (cases rule: update_ui_private_cases [of s k d E xs])
    case same
    then show ?thesis
      using Cons.IH [of s] by (simp add: kd)
  next
    case unregistered
    then show ?thesis
      using Cons.IH [of "s\<lparr>last_data := (last_data s)(k \<mapsto> d)\<rparr>"] by (simp add: kd)
  next
    case (raised e s1)
    then show ?thesis by (simp add: kd)
  next
    case (returned s1)
    then show ?thesis
      using Cons.IH [of "s1\<lparr>last_data := (last_data s1)(k \<mapsto> d)\<rparr>"] by (simp add: kd)
  qed
qed

lemma dispatch_raises_price:
  "dispatch E t v s = (Some e, s') \<Longrightarrow> t = ''price''"
  by (auto simp add: dispatch_def handle_positions_update_def handle_orders_update_def
      handle_balance_update_def split: if_splits)

text \<open>
  Claim C3, as the code has it. \<^verbatim>\<open>_update_ui\<close> has no try block. When the
  handler of a topic raises, the exception leaves the flush, the topics that follow in
  the batch are not dispatched, and the snapshot of the failing topic is not written;
  the topics before it keep their dispatch and their snapshot. Only the price handler
  can raise: the other three catch inside or cannot fail.
\<close>

theorem update_ui_private_handler_raises:
  assumes "update_ui_private E before s = (None, s1)"
    and "py_get (last_data s1) t \<noteq> v"
    and "t \<in> set (widgets s1)"
    and "dispatch E t v s1 = (Some e, s2)"
  shows "update_ui_private E (before @ (t, v) # rest) s = (Some e, s2)
       \<and> last_data s2 = last_data s1
       \<and> new_calls s1 s2 = calls_of t v
       \<and> t = ''price''"
proof -
  have "update_ui_private E ((t, v) # rest) s1 = (Some e, s2)"
    using assms(2-4) by simp
  then have "update_ui_private E (before @ (t, v) # rest) s = (Some e, s2)"
    using assms(1) by (simp add: update_ui_private_append)
  moreover from dispatch_frame [OF assms(4)]
  have "last_data s2 = last_data s1" "new_calls s1 s2 = calls_of t v"
    by (simp_all add: new_calls_def)
  moreover from assms(4) have "t = ''price''" by (rule dispatch_raises_price)
  ultimately show ?thesis by simp
qed

theorem update_ui_private_handler_raises_witness:
  "update_ui_private demo_env
       ([(''balance'', PyNum 5)] @ (''price'', PyNone) # [(''orders'', PyList [])]) initial_window
     = (Some TypeError, balance_recorded\<lparr>invoked := [HandleBalance (PyNum 5), HandlePrice PyNone]\<rparr>)
   \<and> last_data (balance_recorded\<lparr>invoked := [HandleBalance (PyNum 5), HandlePrice PyNone]\<rparr>) ''price''
     = Some (PyNum 0)"
proof -
  have before: "update_ui_private demo_env [(''balance'', PyNum 5)] initial_window
      = (None, balance_recorded)"
    by (simp add: balance_recorded_def initial_window_def py_get_def dispatch_def note_call_def
        handle_balance_update_def)
  have changed: "py_get (last_data balance_recorded) ''price'' \<noteq> PyNone"
    by (simp add: balance_recorded_def initial_window_def py_get_def)
  have registered: "''price'' \<in> set (widgets balance_recorded)"
    by (simp add: balance_recorded_def initial_window_def)
  have raises: "dispatch demo_env ''price'' PyNone balance_recorded
      = (Some TypeError, balance_recorded\<lparr>invoked := [HandleBalance (PyNum 5), HandlePrice PyNone]\<rparr>)"
    by (simp add: balance_recorded_def initial_window_def dispatch_def note_call_def
        handle_price_update_def)
  from update_ui_private_handler_raises [OF before changed registered raises, of "[(''orders'', PyList [])]"]
  show ?thesis
    by (simp add: balance_recorded_def initial_window_def)
qed

text \<open>
  The claim as it is stated fails on a batch of a price of None and a balance: the
  exception reaches the caller, the balance handler is not called, and neither snapshot
  is written.
\<close>

theorem process_updates_isolation_counterexample:
  "fst (process_updates demo_env mixed_batch_window) = Some TypeError
   \<and> new_calls mixed_batch_window (snd (process_updates demo_env mixed_batch_window))
       = [HandlePrice PyNone]
   \<and> last_data (snd (process_updates demo_env mixed_batch_window)) ''price'' = Some (PyNum 0)
   \<and> last_data (snd (process_updates demo_env mixed_batch_window)) ''balance'' = Some (PyNum 0)
   \<and> balance_label (snd (process_updates demo_env mixed_batch_window)) = LabelInitial"
  by (simp add: mixed_batch_window_def process_updates_def drain_def
      dict_update_def new_calls_def initial_window_def py_get_def dispatch_def note_call_def
      handle_price_update_def demo_env_def)

subsection \<open>Rows of the positions table\<close>

lemma positions_loop_rows:
  "positions_loop ps table = table @ map position_row_of (filter (\<lambda>p. pos_size p \<noteq> 0) ps)"
  by (induction ps arbitrary: table) simp_all

lemma position_row_of_inj: "inj position_row_of"
  by (rule injI) (simp add: position_row_of_def)

lemma position_row_shown:
  "position_row_of p \<in> set (map position_row_of (filter P ps)) \<longleftrightarrow> p \<in> set ps \<and> P p"
  using inj_image_mem_iff [OF position_row_of_inj, of p "set (filter P ps)"] by simp

text \<open>
  Claim C4. When the fetch of \<^verbatim>\<open>update_positions_table\<close> returns a list, the
  table holds exactly the rows of the positions whose size is not 0, in the order of the
  list: a position of size 0 has no row, every other position has its row, and every
  row belongs to a fetched position of nonzero size.
\<close>

theorem update_positions_table_rows:
  assumes "call_get_positions E s = (Inr fetched, s1)"
  shows "positions_table (update_positions_table E a s)
           = map position_row_of (filter (\<lambda>p. pos_size p \<noteq> 0) fetched)
       \<and> (\<forall>p\<in>set fetched.
             (pos_size p = 0 \<longrightarrow> position_row_of p \<notin> set (positions_table (update_positions_table E a s)))
           \<and> (pos_size p \<noteq> 0 \<longrightarrow> position_row_of p \<in> set (positions_table (update_positions_table E a s))))
       \<and> (\<forall>row\<in>set (positions_table (update_positions_table E a s)).
             \<exists>p\<in>set fetched. pos_size p \<noteq> 0 \<and> row = position_row_of p)"
proof -
  have rows: "positions_table (update_positions_table E a s)
      = map position_row_of (filter (\<lambda>p. pos_size p \<noteq> 0) fetched)"
    using assms by (simp add: update_positions_table_def positions_loop_rows)
  have zero: "\<forall>p\<in>set fetched.
             (pos_size p = 0 \<longrightarrow> position_row_of p \<notin> set (positions_table (update_positions_table E a s)))
           \<and> (pos_size p \<noteq> 0 \<longrightarrow> position_row_of p \<in> set (positions_table (update_positions_table E a s)))"
    unfolding rows position_row_shown by simp
  have only: "\<forall>row\<in>set (positions_table (update_positions_table E a s)).
             \<exists>p\<in>set fetched. pos_size p \<noteq> 0 \<and> row = position_row_of p"
    unfolding rows by auto
  show ?thesis
    by (rule conjI [OF rows conjI [OF zero only]])
qed



lemma fetch_demo: "call_get_positions demo_env initial_window
      = (Inr [eth_position, btc_position],
         initial_window\<lparr>world := Suc 0, requests := [ReqGetPositions]\<rparr>)"
    by (simp add: call_get_positions_def demo_env_def initial_window_def)

theorem update_positions_table_rows_witness:
  "positions_table (update_positions_table demo_env () initial_window) = [position_row_of btc_position]
   \<and> pos_size eth_position = 0
   \<and> position_row_of eth_position \<notin> set (positions_table (update_positions_table demo_env () initial_window))
   \<and> pos_size btc_position \<noteq> 0
   \<and> position_row_of btc_position \<in> set (positions_table (update_positions_table demo_env () initial_window))"
proof -
  note rows = update_positions_table_rows [OF fetch_demo, of "()"]
  have z: "pos_size eth_position = 0" by (simp add: eth_position_def)
  have nz: "pos_size btc_position \<noteq> 0" by (simp add: btc_position_def)
  have shown: "positions_table (update_positions_table demo_env () initial_window)
      = [position_row_of btc_position]"
    unfolding rows [THEN conjunct1] using z nz by simp
  have eth: "position_row_of eth_position
      \<notin> set (positions_table (update_positions_table demo_env () initial_window))"
    using rows [THEN conjunct2, THEN conjunct1, THEN bspec, of eth_position] z by simp
  have btc: "position_row_of btc_position
      \<in> set (positions_table (update_positions_table demo_env () initial_window))"
    using rows [THEN conjunct2, THEN conjunct1, THEN bspec, of btc_position] nz by simp
  show ?thesis
    by (rule conjI [OF shown conjI [OF z conjI [OF eth conjI [OF nz btc]]]])
qed


subsection \<open>The argument of the positions table update\<close>

lemma update_positions_table_shows:
  "positions_table (update_positions_table E a s)
     = (case fst (pm_get_positions E (world s)) of
          Inl e \<Rightarrow> positions_table s
        | Inr fetched \<Rightarrow> map position_row_of (filter (\<lambda>p. pos_size p \<noteq> 0) fetched))"
  by (simp add: update_positions_table_def call_get_positions_def positions_loop_rows log_line_def
      split: prod.splits sum.splits)

lemma update_chart_positions_table [simp]:
  "positions_table (update_chart_positions E s) = positions_table s"
  by (simp add: update_chart_positions_def call_get_positions_def call_get_orders_def log_line_def
      split: prod.splits sum.splits option.splits)

text \<open>
  Claim C10. \<^verbatim>\<open>update_positions_table\<close> returns the same window for any two
  arguments, and so does the positions handler for any two delivered values; the rows
  shown are those of the method's own \<^verbatim>\<open>get_positions()\<close>, or the rows the table
  had if that call raises.
\<close>

theorem update_positions_table_ignores_argument:
  "update_positions_table E positions s = update_positions_table E positions' s
   \<and> handle_positions_update E v s = handle_positions_update E v' s
   \<and> positions_table (snd (dispatch E ''positions'' v s))
       = positions_table (snd (dispatch E ''positions'' v' s))
   \<and> positions_table (update_positions_table E positions s)
       = (case fst (pm_get_positions E (world s)) of
            Inl e \<Rightarrow> positions_table s
          | Inr fetched \<Rightarrow> map position_row_of (filter (\<lambda>p. pos_size p \<noteq> 0) fetched))"
proof -
  have same: "update_positions_table E positions s = update_positions_table E positions' s"
    by (simp add: update_positions_table_def)
  have handler: "handle_positions_update E v s = handle_positions_update E v' s"
    by (simp add: handle_positions_update_def update_positions_table_def)
  have shown: "positions_table (snd (dispatch E ''positions'' x s))
      = (case fst (pm_get_positions E (world s)) of
            Inl e \<Rightarrow> positions_table s
          | Inr fetched \<Rightarrow> map position_row_of (filter (\<lambda>p. pos_size p \<noteq> 0) fetched))" for x
    by (simp add: dispatch_def handle_positions_update_def update_positions_table_shows
        note_call_def split: sum.splits)
  have dispatched: "positions_table (snd (dispatch E ''positions'' v s))
      = positions_table (snd (dispatch E ''positions'' v' s))"
    unfolding shown ..
  show ?thesis
    by (rule conjI [OF same conjI [OF handler conjI [OF dispatched update_positions_table_shows]]])
qed



theorem update_positions_table_ignores_argument_witness:
  "update_positions_table demo_env [eth_position] initial_window
     = update_positions_table demo_env (PyNum 7) initial_window
   \<and> positions_table (snd (dispatch demo_env ''positions'' (PyList []) initial_window))
       = positions_table (snd (dispatch demo_env ''positions'' (PyNum 7) initial_window))
   \<and> positions_table (update_positions_table demo_env [eth_position] initial_window)
       = [position_row_of btc_position]"
proof -
  note ignored = update_positions_table_ignores_argument
    [of demo_env "[eth_position]" initial_window "PyNum 7" "PyList []" "PyNum 7"]
  have fetched: "fst (pm_get_positions demo_env (world initial_window))
      = Inr [eth_position, btc_position]"
    by (simp add: demo_env_def)
  note same = ignored [THEN conjunct1]
  note shown = ignored [THEN conjunct2, THEN conjunct2, THEN conjunct1]
  note fresh = ignored [THEN conjunct2, THEN conjunct2, THEN conjunct2]
  have rows: "positions_table (update_positions_table demo_env [eth_position] initial_window)
      = [position_row_of btc_position]"
    unfolding fresh fetched by (simp add: eth_position_def btc_position_def)
  show ?thesis
    by (rule conjI [OF same conjI [OF shown rows]])
qed

subsection \<open>Closing a position of size 0\<close>

lemma close_position_sends_order:
  assumes "sz \<noteq> 0"
  shows "requests (close_position E symb sz s) = requests s @ [ReqPlaceOrder symb sz]"
proof -
  obtain r w where api: "api_place_order E symb sz (world s) = (r, w)"
    by (cases "api_place_order E symb sz (world s)")
  show ?thesis
    using assms
    by (cases r)
      (auto simp add: close_position_def pm_close_position_def call_place_order_def api
        show_message_def log_line_def Let_def split: option.splits)
qed

text \<open>
  Claim C5, with the position manager as the spec has it. Closing with size 0 is refused
  with a validation error before the trading API is called: the window logs the error
  and shows it, and is otherwise as it was. No request is sent, the world of the
  collaborators is untouched, the refresh flags and both tables are unchanged.
\<close>

theorem close_position_zero_rejected:
  "close_position E symb 0 s
     = show_message (MsgCloseFailed (ExceptionText ValidationError))
         (log_line (ErrClosePositionRaised ValidationError) s)
   \<and> requests (close_position E symb 0 s) = requests s
   \<and> world (close_position E symb 0 s) = world s
   \<and> positions_update_needed (close_position E symb 0 s) = positions_update_needed s
   \<and> orders_update_needed (close_position E symb 0 s) = orders_update_needed s
   \<and> positions_table (close_position E symb 0 s) = positions_table s
   \<and> orders_table (close_position E symb 0 s) = orders_table s"
  by (simp add: close_position_def pm_close_position_def show_message_def log_line_def)

theorem close_position_zero_rejected_witness:
  "messages (close_position demo_env ''BTCUSDT'' 0 initial_window)
     = [MsgCloseFailed (ExceptionText ValidationError)]
   \<and> requests (close_position demo_env ''BTCUSDT'' 0 initial_window) = []
   \<and> world (close_position demo_env ''BTCUSDT'' 0 initial_window) = 0
   \<and> requests (close_position demo_env ''BTCUSDT'' (1 / 100) initial_window)
       = [ReqPlaceOrder ''BTCUSDT'' (1 / 100)]"
proof -
  note rejected = close_position_zero_rejected [of demo_env "''BTCUSDT''" initial_window]
  have start: "requests initial_window = []" "world initial_window = 0"
    "messages initial_window = []"
    by (simp_all add: initial_window_def)
  have shown: "messages (close_position demo_env ''BTCUSDT'' 0 initial_window)
     = [MsgCloseFailed (ExceptionText ValidationError)]"
    unfolding rejected [THEN conjunct1] by (simp add: show_message_def log_line_def start)
  have none: "requests (close_position demo_env ''BTCUSDT'' 0 initial_window) = []"
    using rejected [THEN conjunct2, THEN conjunct1] start by simp
  have same: "world (close_position demo_env ''BTCUSDT'' 0 initial_window) = 0"
    using rejected [THEN conjunct2, THEN conjunct2, THEN conjunct1] start by simp
  have sent: "requests (close_position demo_env ''BTCUSDT'' (1 / 100) initial_window)
       = [ReqPlaceOrder ''BTCUSDT'' (1 / 100)]"
    using close_position_sends_order [of "1 / 100" demo_env "''BTCUSDT''" initial_window] start
    by simp
  show ?thesis by (rule conjI [OF shown conjI [OF none conjI [OF same sent]]])
qed

subsection \<open>The subscribe frame\<close>

lemma escape_char_plain:
  "32 \<le> (of_char c :: nat) \<Longrightarrow> (of_char c :: nat) \<le> 126 \<Longrightarrow> c \<noteq> CHR 0x22 \<Longrightarrow> c \<noteq> CHR 0x5C
     \<Longrightarrow> escape_char c = [c]"
  by (auto simp add: escape_char_def)

lemma encode_string_plain: "plain_text s \<Longrightarrow> encode_string s = quoted s"
proof -
  assume "plain_text s"
  then have "concat (map escape_char s) = s"
    by (induction s) (simp_all add: plain_text_def escape_char_plain)
  then show ?thesis by (simp add: encode_string_def quoted_def)
qed

lemma plain_text_append: "plain_text (a @ b) \<longleftrightarrow> plain_text a \<and> plain_text b"
  by (auto simp add: plain_text_def)

lemma subscribe_frame_text:
  assumes "plain_text current_text"
  shows "json_dumps (subscribe_message current_text)
     = ''{'' @ quoted ''op'' @ '': '' @ quoted ''subscribe'' @ '', '' @ quoted ''args''
         @ '': ['' @ quoted (''tickers.'' @ current_text) @ '']}''"
proof -
  have a: "plain_text ''op''" "plain_text ''subscribe''" "plain_text ''args''"
    "plain_text ''tickers.''"
    by (simp_all add: plain_text_def)
  with assms have b: "plain_text (''tickers.'' @ current_text)"
    by (simp only: plain_text_append)
  show ?thesis
    by (simp add: subscribe_message_def encode_string_plain [OF a(1)] encode_string_plain [OF a(2)]
        encode_string_plain [OF a(3)] encode_string_plain [OF b, simplified])
qed





subsection \<open>The fields of the trading stop request\<close>

lemma trading_stop_params_lookup:
  "map_of (trading_stop_params symb tp sl) ''takeProfit''
     = (if truthy tp then Some (ParamStrOf tp) else None)"
  "map_of (trading_stop_params symb tp sl) ''stopLoss''
     = (if truthy sl then Some (ParamStrOf sl) else None)"
  "map_of (trading_stop_params symb tp sl) ''category'' = Some (ParamText ''linear'')"
  "map_of (trading_stop_params symb tp sl) ''symbol'' = Some (ParamText symb)"
  "map_of (trading_stop_params symb tp sl) ''positionIdx'' = Some (ParamInt 0)"
  by (simp_all add: trading_stop_params_def Let_def)

lemma trading_stop_params_keys:
  "map fst (trading_stop_params symb tp sl)
     = [''category'', ''symbol'', ''positionIdx'']
       @ (if truthy tp then [''takeProfit''] else [])
       @ (if truthy sl then [''stopLoss''] else [])"
  by (simp add: trading_stop_params_def Let_def)

lemma set_tp_sl_requests:
  "requests (set_tp_sl E position tp sl s)
     = requests s @ [ReqSetTradingStop (trading_stop_params (pos_symbol position) tp sl)]"
  by (simp add: set_tp_sl_def call_set_trading_stop_def log_line_def
      split: prod.splits sum.splits option.splits)

lemma edit_position_dialog_requests:
  "requests (edit_position_dialog E position s)
     = requests s @
       (case fst (sl_tp_dialog E position (world s)) of
          None \<Rightarrow> []
        | Some (tp, sl) \<Rightarrow> [ReqSetTradingStop (trading_stop_params (pos_symbol position) tp sl)])"
  by (simp add: edit_position_dialog_def set_tp_sl_requests split: prod.splits option.splits)

text \<open>
  Claim C7. When \<^verbatim>\<open>edit_position\<close> finds the position of the row and the dialog is
  accepted with the values \<open>(tp, sl)\<close>, it sends exactly one \<^verbatim>\<open>set_trading_stop\<close>
  request. Its arguments have the key \<open>takeProfit\<close> if and only if \<open>tp\<close> is provided,
  and then with the value \<^verbatim>\<open>str(tp)\<close>; likewise \<open>stopLoss\<close> and \<open>sl\<close>. A value
  counts as provided when \<^verbatim>\<open>if tp:\<close> takes it: not None, not 0, not empty. A key
  that is not provided is absent, whatever else the request holds. The first definition
  of \<^verbatim>\<open>edit_position\<close>, which the second replaces, sends the same request.
\<close>

theorem edit_position_sends_provided_fields:
  assumes "table_item (positions_table s) row = Some item"
    and "row_user_data item = Some position"
    and "sl_tp_dialog E position (world s) = (Some (tp, sl), w)"
  shows "requests (snd (edit_position E row s))
           = requests s @ [ReqSetTradingStop (trading_stop_params (pos_symbol position) tp sl)]
       \<and> requests (edit_position_shadowed E position s)
           = requests s @ [ReqSetTradingStop (trading_stop_params (pos_symbol position) tp sl)]
       \<and> (''takeProfit'' \<in> fst ` set (trading_stop_params (pos_symbol position) tp sl)
            \<longleftrightarrow> truthy tp)
       \<and> (''stopLoss'' \<in> fst ` set (trading_stop_params (pos_symbol position) tp sl)
            \<longleftrightarrow> truthy sl)
       \<and> map_of (trading_stop_params (pos_symbol position) tp sl) ''takeProfit''
           = (if truthy tp then Some (ParamStrOf tp) else None)
       \<and> map_of (trading_stop_params (pos_symbol position) tp sl) ''stopLoss''
           = (if truthy sl then Some (ParamStrOf sl) else None)"
proof -
  have sent: "requests (snd (edit_position E row s))
      = requests s @ [ReqSetTradingStop (trading_stop_params (pos_symbol position) tp sl)]"
    using assms by (simp add: edit_position_def edit_position_dialog_requests)
  have shadowed: "requests (edit_position_shadowed E position s)
      = requests s @ [ReqSetTradingStop (trading_stop_params (pos_symbol position) tp sl)]"
    using assms(3) by (simp add: edit_position_shadowed_def edit_position_dialog_requests)
  have keys: "set (map fst (trading_stop_params (pos_symbol position) tp sl))
      = {''category'', ''symbol'', ''positionIdx''}
        \<union> (if truthy tp then {''takeProfit''} else {})
        \<union> (if truthy sl then {''stopLoss''} else {})"
    unfolding trading_stop_params_keys by auto
  have tp: "''takeProfit'' \<in> fst ` set (trading_stop_params (pos_symbol position) tp sl)
      \<longleftrightarrow> truthy tp"
    using keys by (simp add: set_map [symmetric] del: set_map)
  have sl: "''stopLoss'' \<in> fst ` set (trading_stop_params (pos_symbol position) tp sl)
      \<longleftrightarrow> truthy sl"
    using keys by (simp add: set_map [symmetric] del: set_map)
  show ?thesis
    by (rule conjI [OF sent conjI [OF shadowed conjI [OF tp conjI [OF sl
          conjI [OF trading_stop_params_lookup(1) trading_stop_params_lookup(2)]]]]])
qed

theorem edit_position_sends_provided_fields_witness:
  "requests (snd (edit_position demo_env 0 shown_btc_window))
     = [ReqSetTradingStop
          [(''category'', ParamText ''linear''), (''symbol'', ParamText ''BTCUSDT''),
           (''positionIdx'', ParamInt 0), (''takeProfit'', ParamStrOf (PyNum 70000))]]
   \<and> truthy (PyNum 70000) \<and> \<not> truthy PyNone
   \<and> map_of (trading_stop_params ''BTCUSDT'' (PyNum 70000) PyNone) ''stopLoss'' = None"
proof -
  have item: "table_item (positions_table shown_btc_window) 0 = Some (position_row_of btc_position)"
    by (simp add: shown_btc_window_def table_item_def)
  have data: "row_user_data (position_row_of btc_position) = Some btc_position"
    by (simp add: position_row_of_def)
  have dialog: "sl_tp_dialog demo_env btc_position (world shown_btc_window)
      = (Some (PyNum 70000, PyNone), world shown_btc_window)"
    by (simp add: demo_env_def)
  note sends = edit_position_sends_provided_fields [OF item data dialog]
  have params: "trading_stop_params (pos_symbol btc_position) (PyNum 70000) PyNone
      = [(''category'', ParamText ''linear''), (''symbol'', ParamText ''BTCUSDT''),
         (''positionIdx'', ParamInt 0), (''takeProfit'', ParamStrOf (PyNum 70000))]"
    by (simp add: trading_stop_params_def btc_position_def)
  have none: "requests shown_btc_window = []"
    by (simp add: shown_btc_window_def initial_window_def)
  have sent: "requests (snd (edit_position demo_env 0 shown_btc_window))
     = [ReqSetTradingStop
          [(''category'', ParamText ''linear''), (''symbol'', ParamText ''BTCUSDT''),
           (''positionIdx'', ParamInt 0), (''takeProfit'', ParamStrOf (PyNum 70000))]]"
    using sends [THEN conjunct1] unfolding params none by simp
  have sym: "pos_symbol btc_position = ''BTCUSDT''" by (simp add: btc_position_def)
  have omitted: "map_of (trading_stop_params ''BTCUSDT'' (PyNum 70000) PyNone) ''stopLoss'' = None"
    using sends [THEN conjunct2, THEN conjunct2, THEN conjunct2, THEN conjunct2, THEN conjunct2]
    unfolding sym by simp
  have t: "truthy (PyNum 70000)" "\<not> truthy PyNone" by simp_all
  show ?thesis
    by (rule conjI [OF sent conjI [OF t(1) conjI [OF t(2) omitted]]])
qed

subsection \<open>The symbol filter\<close>

lemma take_is_prefix: "take (length t) s = t \<longleftrightarrow> (\<exists>ss. s = t @ ss)"
  by (metis append_eq_conv_conj append_take_drop_id)

lemma py_in_iff: "py_in t s \<longleftrightarrow> (\<exists>ps ss. s = ps @ t @ ss)"
proof (induction s)
  case Nil
  show ?case by auto
next
  case (Cons c cs)
  have "(\<exists>ps ss. c # cs = ps @ t @ ss)
      \<longleftrightarrow> (\<exists>ss. c # cs = t @ ss) \<or> (\<exists>ps ss. cs = ps @ t @ ss)"
  proof
    assume "\<exists>ps ss. c # cs = ps @ t @ ss"
    then obtain ps ss where eq: "c # cs = ps @ t @ ss" by blast
    show "(\<exists>ss. c # cs = t @ ss) \<or> (\<exists>ps ss. cs = ps @ t @ ss)"
    proof (cases ps)
      case Nil
      with eq show ?thesis by auto
    next
      case (Cons p ps')
      with eq have "cs = ps' @ t @ ss" by simp
      then show ?thesis by blast
    qed
  next
    assume "(\<exists>ss. c # cs = t @ ss) \<or> (\<exists>ps ss. cs = ps @ t @ ss)"
    then show "\<exists>ps ss. c # cs = ps @ t @ ss"
    proof
      assume "\<exists>ss. c # cs = t @ ss"
      then obtain ss where "c # cs = [] @ t @ ss" by auto
      then show ?thesis by blast
    next
      assume "\<exists>ps ss. cs = ps @ t @ ss"
      then obtain ps ss where "c # cs = (c # ps) @ t @ ss" by auto
      then show ?thesis by blast
    qed
  qed
  with Cons.IH show ?case
    by (simp add: take_is_prefix del: take_Suc_Cons)
qed

lemma combo_items_after_filter:
  "symbol_combo_items (combo_add_items xs (combo_clear s)) = xs"
  by (simp add: combo_add_items_def combo_clear_def)

lemma filter_symbols_items:
  "symbol_combo_items (filter_symbols s)
     = filter (\<lambda>symbol. py_in (py_upper (symbol_combo_text s)) (code_points symbol))
         (available_symbols s)"
  by (simp add: filter_symbols_def Let_def combo_items_after_filter)

lemma perform_filter_items:
  "all_symbols s = Some symbols \<Longrightarrow>
     symbol_combo_items (snd (perform_filter s))
       = filter (\<lambda>symbol. py_in (py_upper (symbol_combo_text s)) (code_points symbol)) symbols"
  by (simp add: perform_filter_def Let_def combo_add_items_def combo_clear_def)

lemma load_symbols_sorted:
  assumes "sm_get_instruments_info E (world s) = (Inr (Some symbols), w)"
  shows "available_symbols (load_symbols E s) = sort symbols"
    and "sorted (available_symbols (load_symbols E s))"
    and "symbol_combo_items (load_symbols E s) = sort symbols"
  using assms
  by (simp_all add: load_symbols_def Let_def combo_add_items_def combo_clear_def log_line_def)

lemma py_upper_ascii:
  assumes "\<forall>c\<in>set s. (of_char c :: nat) < 97 \<or> (122 < (of_char c :: nat) \<and> (of_char c :: nat) < 128)"
  shows "py_upper s = code_points s"
  using assms by (induction s) (auto simp add: py_upper_def code_points_def upper_char_def)

text \<open>
  Claim C9, as the code has it. The filter puts the search text in upper case and leaves
  the symbols as they are: it returns exactly the catalog symbols that contain the
  upper-cased text as a substring, in the order of the catalog. When every catalog
  symbol is its own upper case this is containment up to case. A sorted catalog gives a
  sorted result. \<^verbatim>\<open>perform_filter\<close> does the same on \<^verbatim>\<open>all_symbols\<close>.
\<close>

theorem filter_symbols_result:
  "symbol_combo_items (filter_symbols s)
     = filter (\<lambda>symbol. \<exists>ps ss. code_points symbol = ps @ py_upper (symbol_combo_text s) @ ss)
         (available_symbols s)
   \<and> ((\<forall>symbol\<in>set (available_symbols s). py_upper symbol = code_points symbol) \<longrightarrow>
        symbol_combo_items (filter_symbols s)
          = filter (contains_ignoring_case (symbol_combo_text s)) (available_symbols s))
   \<and> (sorted (available_symbols s) \<longrightarrow> sorted (symbol_combo_items (filter_symbols s)))
   \<and> (all_symbols s = Some symbols \<longrightarrow>
        symbol_combo_items (snd (perform_filter s))
          = filter (\<lambda>symbol. \<exists>ps ss. code_points symbol = ps @ py_upper (symbol_combo_text s) @ ss)
              symbols)"
proof -
  have exact: "symbol_combo_items (filter_symbols s)
     = filter (\<lambda>symbol. \<exists>ps ss. code_points symbol = ps @ py_upper (symbol_combo_text s) @ ss)
         (available_symbols s)"
    unfolding filter_symbols_items py_in_iff ..
  have upper: "(\<forall>symbol\<in>set (available_symbols s). py_upper symbol = code_points symbol) \<longrightarrow>
        symbol_combo_items (filter_symbols s)
          = filter (contains_ignoring_case (symbol_combo_text s)) (available_symbols s)"
    unfolding filter_symbols_items contains_ignoring_case_def
    by (auto intro: filter_cong)
  have order: "sorted (available_symbols s) \<longrightarrow> sorted (symbol_combo_items (filter_symbols s))"
    unfolding filter_symbols_items by (simp add: sorted_wrt_filter)
  have second: "all_symbols s = Some symbols \<longrightarrow>
        symbol_combo_items (snd (perform_filter s))
          = filter (\<lambda>symbol. \<exists>ps ss. code_points symbol = ps @ py_upper (symbol_combo_text s) @ ss)
              symbols"
    by (simp add: perform_filter_items py_in_iff)
  show ?thesis
    by (rule conjI [OF exact conjI [OF upper conjI [OF order second]]])
qed

lemma upper_examples:
  "py_upper ''eth'' = code_points ''ETH''"
  "py_upper ''BTCUSDT'' = code_points ''BTCUSDT''"
  "py_upper ''ETHUSDT'' = code_points ''ETHUSDT''"
  "py_upper ''ethUSDT'' = code_points ''ETHUSDT''"
  "py_upper ''SSVUSDT'' = code_points ''SSVUSDT''"
  "py_upper [CHR 0xDF] = code_points ''SS''"
  "py_upper [CHR 0xE9] = [201]"
  by (simp_all add: py_upper_def upper_char_def code_points_def)

theorem filter_symbols_result_witness:
  "symbol_combo_items (filter_symbols upper_case_window) = [''ETHUSDT'']
   \<and> filter (contains_ignoring_case ''eth'') [''BTCUSDT'', ''ETHUSDT''] = [''ETHUSDT'']
   \<and> sorted (symbol_combo_items (filter_symbols upper_case_window))
   \<and> symbol_combo_items (filter_symbols sharp_s_window) = [''SSVUSDT'']"
proof -
  note result = filter_symbols_result [of upper_case_window]
  have catalog: "available_symbols upper_case_window = [''BTCUSDT'', ''ETHUSDT'']"
    and typed: "symbol_combo_text upper_case_window = ''eth''"
    by (simp_all add: upper_case_window_def)
  have all_upper:
    "\<forall>symbol\<in>set (available_symbols upper_case_window). py_upper symbol = code_points symbol"
    unfolding catalog by (simp add: upper_examples)
  have is_sorted: "sorted (available_symbols upper_case_window)"
    unfolding catalog by simp
  have found: "filter (contains_ignoring_case ''eth'') [''BTCUSDT'', ''ETHUSDT''] = [''ETHUSDT'']"
    by (simp add: contains_ignoring_case_def upper_examples code_points_def)
  from result [THEN conjunct2, THEN conjunct1, THEN mp, OF all_upper]
  have items: "symbol_combo_items (filter_symbols upper_case_window) = [''ETHUSDT'']"
    unfolding catalog typed found .
  from result [THEN conjunct2, THEN conjunct2, THEN conjunct1, THEN mp, OF is_sorted]
  have ordered: "sorted (symbol_combo_items (filter_symbols upper_case_window))" .
  have sharp: "symbol_combo_items (filter_symbols sharp_s_window) = [''SSVUSDT'']"
    unfolding filter_symbols_items
    by (simp add: sharp_s_window_def upper_examples code_points_def)
  show ?thesis
    by (rule conjI [OF items conjI [OF found conjI [OF ordered sharp]]])
qed

text \<open>
  The claim as it is stated fails on a catalog symbol with lower-case letters: the
  search text \<open>eth\<close> is contained in \<open>ethUSDT\<close> up to case, and the filter leaves the
  symbol out.
\<close>

theorem filter_symbols_case_counterexample:
  "''ethUSDT'' \<in> set (available_symbols mixed_case_window)
   \<and> contains_ignoring_case (symbol_combo_text mixed_case_window) ''ethUSDT''
   \<and> ''ethUSDT'' \<notin> set (symbol_combo_items (filter_symbols mixed_case_window))"
proof -
  have catalog: "available_symbols mixed_case_window = [''BTCUSDT'', ''ethUSDT'']"
    and typed: "symbol_combo_text mixed_case_window = ''eth''"
    by (simp_all add: mixed_case_window_def)
  have a: "''ethUSDT'' \<in> set (available_symbols mixed_case_window)"
    unfolding catalog by simp
  have b: "contains_ignoring_case (symbol_combo_text mixed_case_window) ''ethUSDT''"
    unfolding typed by (simp add: contains_ignoring_case_def upper_examples code_points_def)
  have c: "''ethUSDT'' \<notin> set (symbol_combo_items (filter_symbols mixed_case_window))"
    unfolding filter_symbols_items catalog typed by (simp add: upper_examples code_points_def)
  show ?thesis by (rule conjI [OF a conjI [OF b c]])
qed

subsection \<open>The poll cycle when the positions fetch raises\<close>

lemma update_ui_positions_fetch_raises:
  assumes "dm_update_all E (world s) = (None, w1)"
    and "pm_get_positions E w1 = (Inl e, w2)"
  shows "update_ui E s
     = log_line (ErrUpdateUI e)
         (s\<lparr>world := w2, requests := requests s @ [ReqUpdateAll, ReqGetPositions]\<rparr>)"
  using assms
  by (simp add: update_ui_def call_update_all_def call_get_positions_def)

lemma update_orders_table_fetch_raises:
  assumes "om_get_orders E (world s) = (Inl e, w)"
  shows "update_orders_table E s
     = log_line (ErrOrdersTable e) (s\<lparr>world := w, requests := requests s @ [ReqGetOrders]\<rparr>)"
  using assms by (simp add: update_orders_table_def call_get_orders_def)

lemma update_positions_table_fetch_raises:
  assumes "pm_get_positions E (world s) = (Inl e, w)"
  shows "update_positions_table E a s
     = log_line (ErrPositionsTable e) (s\<lparr>world := w, requests := requests s @ [ReqGetPositions]\<rparr>)"
  using assms by (simp add: update_positions_table_def call_get_positions_def)

text \<open>
  A failure of the orders fetch, or of the balance fetch, is isolated in the poll cycle:
  the other two are fetched and shown, and the failing one keeps what it showed.
\<close>

lemma update_ui_orders_fetch_raises:
  assumes upd: "\<And>w. fst (dm_update_all E w) = None"
    and pos: "\<And>w. fst (pm_get_positions E w) = Inr ps"
    and ord: "\<And>w. fst (om_get_orders E w) = Inl e"
    and bal: "\<And>w. fst (sm_get_wallet_balance E w) = Inr (PyNum b)"
    and nz: "b \<noteq> 0"
  shows "positions_table (update_ui E s) = map position_row_of (filter (\<lambda>p. pos_size p \<noteq> 0) ps)"
    and "orders_table (update_ui E s) = orders_table s"
    and "balance_label (update_ui E s) = BalanceFixed2 b"
    and "logged (update_ui E s) = logged s @ [ErrOrdersTable e, ErrChartPositions e]"
  by (simp_all add: update_ui_def call_update_all_def call_get_positions_def call_get_orders_def
      call_get_wallet_balance_def update_positions_table_def update_orders_table_def
      update_chart_positions_def set_balance_label_def log_line_def positions_loop_rows
      case_prod_unfold Let_def upd pos ord bal nz)


lemma orders_loop_rows: "orders_loop ods table = table @ map order_row_of ods"
  by (induction ods arbitrary: table) simp_all

lemma update_ui_balance_fetch_raises:
  assumes upd: "\<And>w. fst (dm_update_all E w) = None"
    and pos: "\<And>w. fst (pm_get_positions E w) = Inr ps"
    and ord: "\<And>w. fst (om_get_orders E w) = Inr ods"
    and chart: "\<And>ps ods w. fst (chart_update_positions_and_orders E ps ods w) = None"
    and bal: "\<And>w. fst (sm_get_wallet_balance E w) = Inl e"
  shows "positions_table (update_ui E s) = map position_row_of (filter (\<lambda>p. pos_size p \<noteq> 0) ps)"
    and "orders_table (update_ui E s) = map order_row_of ods"
    and "balance_label (update_ui E s) = balance_label s"
    and "logged (update_ui E s) = logged s @ [ErrUpdateUI e]"
  by (simp_all add: update_ui_def call_update_all_def call_get_positions_def call_get_orders_def
      call_get_wallet_balance_def update_positions_table_def update_orders_table_def
      update_chart_positions_def set_balance_label_def log_line_def positions_loop_rows
      orders_loop_rows case_prod_unfold Let_def upd pos ord chart bal)

text \<open>
  Claim C8 at a poll cycle in which the position manager raises and the other two
  collaborators answer. \<^verbatim>\<open>update_positions_table\<close> and \<^verbatim>\<open>update_orders_table\<close>
  catch a failure of their own fetch, but \<^verbatim>\<open>update_ui\<close> evaluates a
  \<^verbatim>\<open>get_positions()\<close> as the argument of the first of them, in its own try block:
  when that call raises, the cycle ends there. Orders and balance are not fetched,
  although both fetches succeed when they are made.
\<close>

theorem update_ui_positions_down:
  "requests (update_ui positions_down_env initial_window) = [ReqUpdateAll, ReqGetPositions]
   \<and> logged (update_ui positions_down_env initial_window) = [ErrUpdateUI (Failure ''timeout'')]
   \<and> orders_table (update_ui positions_down_env initial_window) = orders_table initial_window
   \<and> balance_label (update_ui positions_down_env initial_window) = balance_label initial_window
   \<and> orders_table (update_orders_table positions_down_env initial_window) = [order_row_of btc_order]
   \<and> balance_label (update_balance positions_down_env initial_window) = BalanceFixed2 100"
proof -
  have a: "dm_update_all positions_down_env (world initial_window) = (None, Suc 0)"
    by (simp add: positions_down_env_def demo_env_def initial_window_def)
  have b: "pm_get_positions positions_down_env (Suc 0) = (Inl (Failure ''timeout''), Suc (Suc 0))"
    by (simp add: positions_down_env_def)
  note run = update_ui_positions_fetch_raises [OF a b]
  have none: "requests initial_window = []" "logged initial_window = []"
    by (simp_all add: initial_window_def)
  have r: "requests (update_ui positions_down_env initial_window) = [ReqUpdateAll, ReqGetPositions]"
    unfolding run by (simp add: log_line_def none)
  have l: "logged (update_ui positions_down_env initial_window) = [ErrUpdateUI (Failure ''timeout'')]"
    unfolding run by (simp add: log_line_def none)
  have ot: "orders_table (update_ui positions_down_env initial_window) = orders_table initial_window"
    unfolding run by (simp add: log_line_def)
  have bl: "balance_label (update_ui positions_down_env initial_window) = balance_label initial_window"
    unfolding run by (simp add: log_line_def)
  have orders: "orders_table (update_orders_table positions_down_env initial_window)
      = [order_row_of btc_order]"
    by (simp add: update_orders_table_def call_get_orders_def positions_down_env_def demo_env_def)
  have balance: "balance_label (update_balance positions_down_env initial_window) = BalanceFixed2 100"
    by (simp add: update_balance_def call_get_wallet_balance_def set_balance_label_def
        positions_down_env_def demo_env_def)
  show ?thesis
    by (rule conjI [OF r conjI [OF l conjI [OF ot conjI [OF bl conjI [OF orders balance]]]]])
qed

end
